theory Spec2Isabelle
  imports Complex_Main "HOL-Library.Sublist"
begin

section \<open>JavaScript strings\<close>

text \<open>
  A JavaScript string is a sequence of UTF-16 code units. A code unit is modelled by
  its number, so that U+00A0 (160) and the byte order mark U+FEFF (65279) are ordinary
  elements; \<open>str\<close> turns an ASCII literal into its code units.
\<close>

type_synonym jsstring = "nat list"

definition str :: "string \<Rightarrow> jsstring" where
  "str s = map of_char s"

text \<open>
  What a function may throw: the two error classes of \<open>types.ts\<close> that the entry points
  raise, and \<open>Error\<close> for every plain \<open>new Error(...)\<close> (the message is not
  modelled). A function that can throw returns a sum, with \<open>Inl\<close> for the error.
\<close>

datatype error = InvalidExtensionError | NoSubtitlesToWriteError | Error

section \<open>src/utils/html.ts\<close>

text \<open>The two tables of the source, in the source's order.\<close>

definition HTML_ESCAPE_MAP :: "(jsstring \<times> jsstring) list" where
  "HTML_ESCAPE_MAP =
     [(str ''&'', str ''&amp;''),
      (str ''<'', str ''&lt;''),
      ([160], str ''&nbsp;'')]"

definition HTML_UNESCAPE_MAP :: "(jsstring \<times> jsstring) list" where
  "HTML_UNESCAPE_MAP =
     [(str ''&amp;'', str ''&''),
      (str ''&lt;'', str ''<''),
      (str ''&nbsp;'', [160]),
      (str ''&gt;'', str ''>''),
      (str ''&quot;'', [34]),
      (str ''&#39;'', [39]),
      (str ''&#x27;'', [39])]"

text \<open>
  \<open>table[key] || key\<close>: the table's entry, or the key itself when there is none (no
  entry of either table is the empty string, the only falsy string).
\<close>

definition lookup_or :: "(jsstring \<times> jsstring) list \<Rightarrow> jsstring \<Rightarrow> jsstring" where
  "lookup_or table key =
     (case map_of table key of
        Some v \<Rightarrow> (if v = [] then key else v)
      | None \<Rightarrow> key)"

text \<open>
  \<open>input.replace(/[&<\u00A0]/g, (char) => HTML_ESCAPE_MAP[char] || char)\<close>: every code
  unit of the class is replaced, each on its own, in one pass.
\<close>

definition escapeHTML :: "jsstring \<Rightarrow> jsstring" where
  "escapeHTML input =
     concat (map (\<lambda>c. if c = 38 \<or> c = 60 \<or> c = 160
                         then lookup_or HTML_ESCAPE_MAP [c] else [c]) input)"

text \<open>
  The alternatives of \<open>/&(?:amp|lt|gt|quot|nbsp|#39|#x27);/g\<close>, in the order of the
  pattern. \<open>entity_at s\<close> is the text the pattern matches at the start of \<open>s\<close>, if any.
\<close>

definition entity_patterns :: "jsstring list" where
  "entity_patterns =
     map (\<lambda>a. str ''&'' @ a @ str '';'')
       [str ''amp'', str ''lt'', str ''gt'', str ''quot'', str ''nbsp'', str ''#39'', str ''#x27'']"

definition entity_at :: "jsstring \<Rightarrow> jsstring option" where
  "entity_at s = find (\<lambda>e. prefix e s) entity_patterns"

text \<open>
  A global replace scans from the left: where the pattern matches, the replacement is
  emitted and the scan goes on after the match; elsewhere one code unit is copied. A
  match has at least one code unit, the first of \<open>c # cs\<close>, so the rest of the input
  after it is \<open>drop (length e - 1) cs\<close>.
\<close>

fun unescapeHTML :: "jsstring \<Rightarrow> jsstring" where
  "unescapeHTML [] = []"
| "unescapeHTML (c # cs) =
     (case entity_at (c # cs) of
        Some e \<Rightarrow> lookup_or HTML_UNESCAPE_MAP e @ unescapeHTML (drop (length e - 1) cs)
      | None \<Rightarrow> c # unescapeHTML cs)"

section \<open>JavaScript numbers\<close>

text \<open>
  A number is a finite value, \<open>NaN\<close>, \<open>Infinity\<close> or \<open>-Infinity\<close>. Finite values are
  exact rationals: the rounding of IEEE doubles is not modelled, so the model is the
  program wherever every intermediate result is a double (all integers below \<open>2^53\<close>
  are), and the two zeros are one. The operations follow IEEE 754 on the other values.
\<close>

datatype jsnum = Num rat | NaN | Infinity | NegInfinity

fun jneg :: "jsnum \<Rightarrow> jsnum" where
  "jneg (Num a) = Num (- a)"
| "jneg NaN = NaN"
| "jneg Infinity = NegInfinity"
| "jneg NegInfinity = Infinity"

fun jadd :: "jsnum \<Rightarrow> jsnum \<Rightarrow> jsnum" where
  "jadd NaN y = NaN"
| "jadd x NaN = NaN"
| "jadd (Num a) (Num b) = Num (a + b)"
| "jadd (Num a) y = y"
| "jadd x (Num b) = x"
| "jadd Infinity Infinity = Infinity"
| "jadd NegInfinity NegInfinity = NegInfinity"
| "jadd Infinity NegInfinity = NaN"
| "jadd NegInfinity Infinity = NaN"

definition jsub :: "jsnum \<Rightarrow> jsnum \<Rightarrow> jsnum" where
  "jsub x y = jadd x (jneg y)"

text \<open>The sign of a number that is not \<open>NaN\<close>: \<open>-1\<close>, \<open>0\<close> or \<open>1\<close>.\<close>

fun jsign :: "jsnum \<Rightarrow> int" where
  "jsign (Num a) = (if a < 0 then - 1 else if a = 0 then 0 else 1)"
| "jsign NaN = 0"
| "jsign Infinity = 1"
| "jsign NegInfinity = - 1"

definition signedInfinity :: "int \<Rightarrow> jsnum" where
  "signedInfinity s = (if s = 0 then NaN else if s < 0 then NegInfinity else Infinity)"

fun jmul :: "jsnum \<Rightarrow> jsnum \<Rightarrow> jsnum" where
  "jmul NaN y = NaN"
| "jmul x NaN = NaN"
| "jmul (Num a) (Num b) = Num (a * b)"
| "jmul x y = signedInfinity (jsign x * jsign y)"

text \<open>
  Division: a finite value divided by zero is an infinity of its sign and \<open>0 / 0\<close> is
  \<open>NaN\<close> (the zero of the model is the positive one, which is what \<open>x - x\<close> gives).
\<close>

fun jdiv :: "jsnum \<Rightarrow> jsnum \<Rightarrow> jsnum" where
  "jdiv NaN y = NaN"
| "jdiv x NaN = NaN"
| "jdiv (Num a) (Num b) = (if b = 0 then signedInfinity (jsign (Num a)) else Num (a / b))"
| "jdiv (Num a) y = Num 0"
| "jdiv x (Num b) = signedInfinity (jsign x * (if b < 0 then - 1 else 1))"
| "jdiv x y = NaN"

fun jfloor :: "jsnum \<Rightarrow> jsnum" where
  "jfloor (Num a) = Num (of_int \<lfloor>a\<rfloor>)"
| "jfloor x = x"

text \<open>
  \<open>x > y\<close>, \<open>x === y\<close>, \<open>x < y\<close>, \<open>x >= y\<close> and \<open>isFinite\<close>; a comparison with
  \<open>NaN\<close> is false, also that of \<open>NaN\<close> with itself.
\<close>

fun jgt :: "jsnum \<Rightarrow> jsnum \<Rightarrow> bool" where
  "jgt NaN y = False"
| "jgt x NaN = False"
| "jgt (Num a) (Num b) = (a > b)"
| "jgt Infinity y = (y \<noteq> Infinity)"
| "jgt x NegInfinity = (x \<noteq> NegInfinity)"
| "jgt x y = False"

fun jeq :: "jsnum \<Rightarrow> jsnum \<Rightarrow> bool" where
  "jeq NaN y = False"
| "jeq x NaN = False"
| "jeq x y = (x = y)"

definition jlt :: "jsnum \<Rightarrow> jsnum \<Rightarrow> bool" where
  "jlt x y = jgt y x"

definition jge :: "jsnum \<Rightarrow> jsnum \<Rightarrow> bool" where
  "jge x y = (jgt x y \<or> jeq x y)"

fun isFinite :: "jsnum \<Rightarrow> bool" where
  "isFinite (Num a) = True"
| "isFinite x = False"

definition ofInt :: "int \<Rightarrow> jsnum" where
  "ofInt n = Num (of_int n)"

section \<open>String methods\<close>

text \<open>
  White space as \<open>trim\<close>, \<open>parseInt\<close> and the class \<open>\s\<close> of a regular expression see
  it: the white space and line terminator code points of ECMAScript.
\<close>

definition isWhiteSpace :: "nat \<Rightarrow> bool" where
  "isWhiteSpace c =
     (c \<in> {9, 10, 11, 12, 13, 32, 160, 5760, 8232, 8233, 8239, 8287, 12288, 65279}
      \<or> (8192 \<le> c \<and> c \<le> 8202))"

definition isDigit :: "nat \<Rightarrow> bool" where
  "isDigit c = (48 \<le> c \<and> c \<le> 57)"

definition trimStart :: "jsstring \<Rightarrow> jsstring" where
  "trimStart s = dropWhile isWhiteSpace s"

definition trimEnd :: "jsstring \<Rightarrow> jsstring" where
  "trimEnd s = rev (dropWhile isWhiteSpace (rev s))"

definition trim :: "jsstring \<Rightarrow> jsstring" where
  "trim s = trimEnd (trimStart s)"

text \<open>
  \<open>s.split(sep)\<close> for a string \<open>sep\<close>. \<open>cur\<close> is the segment being read. A separator
  found at \<open>c # cs\<close> has at least one code unit, so the text after it is
  \<open>drop (length sep - 1) cs\<close>. The empty separator splits into code units.
\<close>

fun split_go :: "jsstring \<Rightarrow> jsstring \<Rightarrow> jsstring \<Rightarrow> jsstring list" where
  "split_go sep cur [] = [cur]"
| "split_go sep cur (c # cs) =
     (if prefix sep (c # cs) then cur # split_go sep [] (drop (length sep - 1) cs)
      else split_go sep (cur @ [c]) cs)"

definition split :: "jsstring \<Rightarrow> jsstring \<Rightarrow> jsstring list" where
  "split s sep = (if sep = [] then map (\<lambda>c. [c]) s else split_go sep [] s)"

text \<open>\<open>xs.join(sep)\<close>.\<close>

fun join :: "jsstring \<Rightarrow> jsstring list \<Rightarrow> jsstring" where
  "join sep [] = []"
| "join sep [x] = x"
| "join sep (x # y # ys) = x @ sep @ join sep (y # ys)"

text \<open>
  \<open>parseInt(s, 10)\<close>: leading white space is skipped, a sign is read, then the longest
  run of decimal digits; \<open>None\<close> is \<open>NaN\<close>, the result when there is no digit. What
  follows the digits is ignored.
\<close>

definition digitsValue :: "jsstring \<Rightarrow> nat" where
  "digitsValue ds = foldl (\<lambda>acc c. acc * 10 + (c - 48)) 0 ds"

definition parseInt :: "jsstring \<Rightarrow> int option" where
  "parseInt s =
     (let S = trimStart s;
          sign = (if S \<noteq> [] \<and> hd S = 45 then - 1 else 1);
          S1 = (if S \<noteq> [] \<and> (hd S = 43 \<or> hd S = 45) then tl S else S);
          Z = takeWhile isDigit S1
      in if Z = [] then None else Some (sign * int (digitsValue Z)))"

definition numberOf :: "int option \<Rightarrow> jsnum" where
  "numberOf r = (case r of None \<Rightarrow> NaN | Some n \<Rightarrow> ofInt n)"

text \<open>\<open>n.toString()\<close> for an integer \<open>n\<close>, and \<open>s.padStart(n, '0')\<close>.\<close>

fun natToString :: "nat \<Rightarrow> jsstring" where
  "natToString n = (if n < 10 then [48 + n] else natToString (n div 10) @ [48 + n mod 10])"

declare natToString.simps [simp del]

definition toString :: "int \<Rightarrow> jsstring" where
  "toString n = (if n < 0 then 45 # natToString (nat (- n)) else natToString (nat n))"

definition padStart :: "jsstring \<Rightarrow> nat \<Rightarrow> jsstring" where
  "padStart s n = replicate (n - length s) 48 @ s"

text \<open>\<open>s.includes(t)\<close>: \<open>t\<close> occurs in \<open>s\<close>.\<close>

fun stringIncludes :: "jsstring \<Rightarrow> jsstring \<Rightarrow> bool" where
  "stringIncludes [] t = (t = [])"
| "stringIncludes (c # cs) t = (prefix t (c # cs) \<or> stringIncludes cs t)"

text \<open>
  \<open>s.split(/\s+/)\<close>: the separators are the maximal runs of white space.
\<close>

function splitWhiteSpace_go :: "jsstring \<Rightarrow> jsstring \<Rightarrow> jsstring list" where
  "splitWhiteSpace_go cur [] = [cur]"
| "splitWhiteSpace_go cur (c # cs) =
     (if isWhiteSpace c then cur # splitWhiteSpace_go [] (dropWhile isWhiteSpace cs)
      else splitWhiteSpace_go (cur @ [c]) cs)"
  by pat_completeness auto
termination
  by (relation "measure (\<lambda>(cur, s). length s)")
     (auto simp: length_dropWhile_le less_Suc_eq_le)

definition splitWhiteSpace :: "jsstring \<Rightarrow> jsstring list" where
  "splitWhiteSpace s = splitWhiteSpace_go [] s"

text \<open>
  \<open>s.toLowerCase()\<close>, code unit by code unit. The table is that of Basic Latin and
  Latin-1, and of the three code units above U+00FF whose lower case lies in those two
  blocks or contains a letter of them (U+0130, the Kelvin sign U+212A and the Angstrom
  sign U+212B). Every other code unit above U+00FF is left as it is: there the model is
  not the method, but no such code unit maps to an ASCII letter, so the model and the
  method agree on whether the result is a given ASCII string.
\<close>

definition lowerUnit :: "nat \<Rightarrow> jsstring" where
  "lowerUnit c =
     (if 65 \<le> c \<and> c \<le> 90 then [c + 32]
      else if (192 \<le> c \<and> c \<le> 214) \<or> (216 \<le> c \<and> c \<le> 222) then [c + 32]
      else if c = 304 then [105, 775]
      else if c = 8490 then [107]
      else if c = 8491 then [229]
      else [c])"

definition toLowerCase :: "jsstring \<Rightarrow> jsstring" where
  "toLowerCase s = concat (map lowerUnit s)"

section \<open>src/utils/duration.ts\<close>

text \<open>\<open>Math.pow(10, e)\<close> for an integer \<open>e\<close>, and \<open>a % b\<close> on integers (the sign is the dividend's).\<close>

definition pow10 :: "int \<Rightarrow> rat" where
  "pow10 e = (if 0 \<le> e then 10 ^ nat e else 1 / 10 ^ nat (- e))"

definition jsRem :: "int \<Rightarrow> int \<Rightarrow> int" where
  "jsRem a b = sgn a * (\<bar>a\<bar> mod \<bar>b\<bar>)"

definition parseDuration :: "jsstring \<Rightarrow> jsstring \<Rightarrow> int \<Rightarrow> error + jsnum" where
  "parseDuration input millisecondSep numberOfMillisecondDigits =
     (let parts = split input millisecondSep
      in case (if length parts \<ge> 2 then
                 (let msStr = trim (parts ! (length parts - 1))
                  in if length msStr > 3 then Inl Error
                     else case parseInt msStr of
                            None \<Rightarrow> Inl Error
                          | Some ms \<Rightarrow>
                              Inr (jmul (ofInt ms)
                                     (Num (pow10 (numberOfMillisecondDigits - int (length msStr)))),
                                   join millisecondSep (take (length parts - 1) parts)))
               else Inr (ofInt 0, input)) of
           Inl e \<Rightarrow> Inl e
         | Inr (milliseconds0, timeString) \<Rightarrow>
             (let timeParts = split (trim timeString) (str '':'');
                  field = (\<lambda>k. numberOf (parseInt (trim (timeParts ! k))))
              in case (if length timeParts = 2
                       then Inr (ofInt 0, field 0, field 1, milliseconds0)
                       else if length timeParts = 3
                       then Inr (field 0, field 1, field 2, milliseconds0)
                       else if length timeParts = 4
                       then Inr (field 0, field 1, field 2, field 3)
                       else Inl Error) of
                   Inl e \<Rightarrow> Inl e
                 | Inr (hours, minutes, seconds, milliseconds) \<Rightarrow>
                     if hours = NaN \<or> minutes = NaN \<or> seconds = NaN then Inl Error
                     else Inr (jadd (jadd (jadd milliseconds (jmul seconds (ofInt 1000)))
                                       (jmul (jmul minutes (ofInt 60)) (ofInt 1000)))
                                 (jmul (jmul (jmul hours (ofInt 60)) (ofInt 60)) (ofInt 1000)))))"

definition formatDuration :: "int \<Rightarrow> jsstring \<Rightarrow> int \<Rightarrow> jsstring" where
  "formatDuration duration millisecondSep numberOfMillisecondDigits =
     (let hours = duration div (60 * 60 * 1000);
          minutes = jsRem duration (60 * 60 * 1000) div (60 * 1000);
          seconds = jsRem duration (60 * 1000) div 1000;
          remaining = jsRem duration 1000;
          ms = \<lfloor>of_int remaining / pow10 (3 - numberOfMillisecondDigits)\<rfloor>;
          hoursStr = padStart (toString hours) 2;
          minutesStr = padStart (toString minutes) 2;
          secondsStr = padStart (toString seconds) 2;
          msStr = padStart (toString ms) (nat numberOfMillisecondDigits)
      in hoursStr @ str '':'' @ minutesStr @ str '':'' @ secondsStr @ millisecondSep @ msStr)"

section \<open>src/types.ts: the unified model\<close>

text \<open>
  \<open>StyleAttributes\<close> is a bag of optional fields; the SubRip codec reads and writes the
  five \<open>srt\<close> fields, which are the ones modelled. An optional field is an \<open>option\<close>.
\<close>

record StyleAttributes =
  srtBold :: "bool option"
  srtColor :: "jsstring option"
  srtItalics :: "bool option"
  srtPosition :: "nat option"
  srtUnderline :: "bool option"

record LineItem =
  inlineStyle :: "StyleAttributes option"
  "text" :: jsstring

record Line =
  items :: "LineItem list"

text \<open>
  An \<open>Item\<close> is a cue. \<open>Duration\<close> is the JavaScript number type, and the type of
  the timestamps is a parameter of the record. \<open>getDuration\<close>, \<open>forceDuration\<close>, the
  SubRip reader and \<open>applyLinearCorrection\<close> are modelled on the number type \<open>jsnum\<close>
  defined above, which has \<open>NaN\<close> and the infinities: the reader can produce a \<open>NaN\<close>
  timestamp, and the linear correction a timestamp that is not finite. \<open>add\<close>,
  \<open>fragment\<close>, \<open>unfragment\<close> and the SubRip writer are modelled on integer timestamps
  (\<open>int Item\<close>): on integers below \<open>2^53\<close> the additions and comparisons of the source
  are exact. \<open>numberItem\<close> is an item with integer timestamps as the item of numbers it
  is. The fields \<open>comments\<close>, \<open>inlineStyle\<close>, \<open>region\<close> and \<open>style\<close> of an item are read
  and written by none of the functions modelled here and are left out; every operation
  carries them along unchanged.

  The operations of \<open>subtitles.ts\<close> read and write only the array \<open>subtitles.items\<close>,
  so the state they pass is that array. The items of the array are taken to be distinct
  objects: a mutation of \<open>items[i]\<close> is the update of position \<open>i\<close>.
\<close>

record 't Item =
  endAt :: 't
  index :: "int option"
  lines :: "Line list"
  startAt :: 't

definition numberItem :: "int Item \<Rightarrow> jsnum Item" where
  "numberItem item =
     \<lparr>endAt = ofInt (endAt item), index = index item, lines = lines item,
      startAt = ofInt (startAt item)\<rparr>"

section \<open>src/subtitles.ts: the timeline operations\<close>

definition lineToString :: "Line \<Rightarrow> jsstring" where
  "lineToString line = join [] (map text (items line))"

definition itemToString :: "('t, 'm) Item_scheme \<Rightarrow> jsstring" where
  "itemToString item = join (str '' - '') (map lineToString (lines item))"

text \<open>
  \<open>add\<close>: the loop variable is \<open>i\<close>. \<open>splice(i, 1); i--\<close> followed by the loop's
  \<open>i++\<close> removes position \<open>i\<close> and leaves \<open>i\<close> where it is.
\<close>

function add_loop :: "int \<Rightarrow> nat \<Rightarrow> int Item list \<Rightarrow> int Item list" where
  "add_loop duration i its =
     (if i < length its then
        (let item = its ! i;
             item = item\<lparr>endAt := endAt item + duration\<rparr>;
             item = item\<lparr>startAt := startAt item + duration\<rparr>
         in if endAt item \<le> 0 \<and> startAt item \<le> 0
            then add_loop duration i (take i its @ drop (Suc i) its)
            else if startAt item < 0
            then add_loop duration (Suc i) (its[i := item\<lparr>startAt := 0\<rparr>])
            else add_loop duration (Suc i) (its[i := item]))
      else its)"
  by pat_completeness auto
termination
  by (relation "measure (\<lambda>(duration, i, its). length its - i)") auto

definition add :: "int Item list \<Rightarrow> int \<Rightarrow> int Item list" where
  "add its duration = add_loop duration 0 its"

definition getDuration :: "jsnum Item list \<Rightarrow> jsnum" where
  "getDuration its =
     (if length its = 0 then ofInt 0 else endAt (its ! (length its - 1)))"

text \<open>
  The loop of \<open>forceDuration\<close> returns \<open>lastIndex\<close> (\<open>-1\<close> when no item starts at or
  after the duration) and the array with the clipped items.
\<close>

function forceDuration_loop ::
  "jsnum \<Rightarrow> nat \<Rightarrow> jsnum Item list \<Rightarrow> int \<times> jsnum Item list" where
  "forceDuration_loop duration i its =
     (if i < length its then
        (let item = its ! i
         in if jge (startAt item) duration then (int i, its)
            else if jgt (endAt item) duration
            then forceDuration_loop duration (Suc i) (its[i := item\<lparr>endAt := duration\<rparr>])
            else forceDuration_loop duration (Suc i) its)
      else (- 1, its))"
  by pat_completeness auto
termination
  by (relation "measure (\<lambda>(duration, i, its). length its - i)") auto

definition dummyItem :: "jsnum \<Rightarrow> jsnum Item" where
  "dummyItem duration =
     \<lparr>endAt = duration, index = None,
      lines = [\<lparr>items = [\<lparr>inlineStyle = None, text = str ''...''\<rparr>]\<rparr>],
      startAt = jsub duration (ofInt 1)\<rparr>"

definition forceDuration :: "jsnum Item list \<Rightarrow> jsnum \<Rightarrow> bool \<Rightarrow> jsnum Item list" where
  "forceDuration its duration addDummyItem =
     (let currentDuration = getDuration its
      in if jeq currentDuration duration then its
         else
           (let its1 =
                  (if jgt currentDuration duration then
                     (case forceDuration_loop duration 0 its of
                        (lastIndex, its') \<Rightarrow>
                          if lastIndex \<noteq> - 1 then take (nat lastIndex) its' else its')
                   else its)
            in if addDummyItem \<and> jlt (getDuration its1) duration
               then its1 @ [dummyItem duration] else its1))"

text \<open>
  \<open>order\<close>: \<open>Array.prototype.sort\<close> is stable, and so is \<open>sort_key\<close>, an insertion
  sort.
\<close>

definition order :: "int Item list \<Rightarrow> int Item list" where
  "order its = (if length its \<le> 1 then its else sort_key startAt its)"

text \<open>
  The inner loop of \<open>fragment\<close>. \<open>newItem\<close> is a copy of the item that ends at the
  boundary, the item itself is moved to start there, \<open>splice(i, 0, newItem)\<close> puts the
  copy at position \<open>i\<close> and the item at \<open>i + 1\<close>, and the two increments of \<open>i\<close> step
  over both.
\<close>

function fragment_for :: "int \<Rightarrow> int \<Rightarrow> nat \<Rightarrow> int Item list \<Rightarrow> int Item list" where
  "fragment_for fragmentStart fragmentEnd i its =
     (if i < length its then
        (let item = its ! i
         in if startAt item < fragmentStart \<and> endAt item > fragmentStart
            then fragment_for fragmentStart fragmentEnd (i + 2)
                   (take i its @ [item\<lparr>endAt := fragmentStart\<rparr>]
                      @ [item\<lparr>startAt := fragmentStart\<rparr>] @ drop (Suc i) its)
            else if startAt item < fragmentEnd \<and> endAt item > fragmentEnd
            then fragment_for fragmentStart fragmentEnd (i + 2)
                   (take i its @ [item\<lparr>endAt := fragmentEnd\<rparr>]
                      @ [item\<lparr>startAt := fragmentEnd\<rparr>] @ drop (Suc i) its)
            else fragment_for fragmentStart fragmentEnd (Suc i) its)
      else its)"
  by pat_completeness auto
termination
  by (relation "measure (\<lambda>(fragmentStart, fragmentEnd, i, its). length its - i)") auto

text \<open>
  The \<open>while\<close> loop of \<open>fragment\<close> need not end (a window size that is not positive
  never moves \<open>fragmentStart\<close> past the last item's end): not returning is \<open>None\<close>.
\<close>

partial_function (option) fragment_while ::
  "int \<Rightarrow> int \<Rightarrow> int \<Rightarrow> int \<Rightarrow> int Item list \<Rightarrow> int Item list option" where
  "fragment_while fragmentDuration lastItemEnd fragmentStart fragmentEnd its =
     (if fragmentStart < lastItemEnd
      then fragment_while fragmentDuration lastItemEnd
             (fragmentStart + fragmentDuration) (fragmentEnd + fragmentDuration)
             (fragment_for fragmentStart fragmentEnd 0 its)
      else Some its)"

definition fragment :: "int Item list \<Rightarrow> int \<Rightarrow> int Item list option" where
  "fragment its fragmentDuration =
     (if length its = 0 then Some its
      else map_option order
             (fragment_while fragmentDuration (endAt (its ! (length its - 1)))
                0 fragmentDuration its))"

text \<open>
  \<open>unfragment\<close>: the inner loop over \<open>j\<close> for a fixed \<open>i < j\<close>. \<open>currentItem\<close> is the
  object at position \<open>i\<close>, which the removals at \<open>j\<close> never move; \<open>splice(j, 1); j--\<close>
  and the loop's \<open>j++\<close> leave \<open>j\<close> where it is.
\<close>

function unfragment_inner :: "nat \<Rightarrow> nat \<Rightarrow> int Item list \<Rightarrow> int Item list" where
  "unfragment_inner i j its =
     (if j < length its then
        (let currentItem = its ! i; nextItem = its ! j
         in if itemToString currentItem = itemToString nextItem
               \<and> endAt currentItem \<ge> startAt nextItem
            then
              (let its1 = (if endAt currentItem < endAt nextItem
                           then its[i := currentItem\<lparr>endAt := endAt nextItem\<rparr>]
                           else its)
               in unfragment_inner i j (take j its1 @ drop (Suc j) its1))
            else if endAt currentItem < startAt nextItem then its
            else unfragment_inner i (Suc j) its)
      else its)"
  by pat_completeness auto
termination
  by (relation "measure (\<lambda>(i, j, its). length its - j)") auto

declare unfragment_inner.simps [simp del]

lemma length_unfragment_inner: "length (unfragment_inner i j its) \<le> length its"
proof (induction i j its rule: unfragment_inner.induct)
  case (1 i j its)
  show ?case
  proof (cases "j < length its")
    case False
    then show ?thesis by (subst unfragment_inner.simps) simp
  next
    case True
    let ?c = "its ! i" and ?n = "its ! j"
    let ?its1 = "(if endAt ?c < endAt ?n then its[i := ?c\<lparr>endAt := endAt ?n\<rparr>] else its)"
    have absorb: "length (unfragment_inner i j (take j ?its1 @ drop (Suc j) ?its1)) \<le> length its"
      if "itemToString ?c = itemToString ?n" "endAt ?c \<ge> startAt ?n"
    proof -
      have "length (unfragment_inner i j (take j ?its1 @ drop (Suc j) ?its1))
              \<le> length (take j ?its1 @ drop (Suc j) ?its1)"
        using "1.IH"(1) [OF True refl refl _ refl] that by simp
      also have "\<dots> \<le> length its" by simp
      finally show ?thesis .
    qed
    have step: "length (unfragment_inner i (Suc j) its) \<le> length its"
      if "\<not> (itemToString ?c = itemToString ?n \<and> endAt ?c \<ge> startAt ?n)"
         "\<not> endAt ?c < startAt ?n"
      using "1.IH"(2) [OF True refl refl] that by simp
    show ?thesis
      apply (subst unfragment_inner.simps)
      apply (simp only: True if_True Let_def)
      using absorb step
      apply (simp split: if_split)
      done
  qed
qed

function unfragment_outer :: "nat \<Rightarrow> int Item list \<Rightarrow> int Item list" where
  "unfragment_outer i its =
     (if Suc i < length its
      then unfragment_outer (Suc i) (unfragment_inner i (Suc i) its)
      else its)"
  by pat_completeness auto
termination
proof (relation "measure (\<lambda>(i, its). length its - i)")
  show "wf (measure (\<lambda>(i, its). length its - i))" by simp
next
  fix i :: nat and its :: "int Item list"
  assume "Suc i < length its"
  then show "((Suc i, unfragment_inner i (Suc i) its), (i, its))
               \<in> measure (\<lambda>(i, its). length its - i)"
    using length_unfragment_inner [of i "Suc i" its] by simp
qed

definition unfragment :: "int Item list \<Rightarrow> int Item list" where
  "unfragment its = (if length its \<le> 1 then its else unfragment_outer 0 (order its))"

declare add_loop.simps [simp del] forceDuration_loop.simps [simp del]
  fragment_for.simps [simp del]
  unfragment_outer.simps [simp del]

text \<open>
  \<open>applyLinearCorrection\<close>. The arguments and the timestamps read are integers, the
  timestamps written are what the floating-point expression gives. The source has no
  \<open>throw\<close> and calls nothing that throws: the result is always \<open>Inr\<close>.
\<close>

definition applyLinearCorrection ::
  "int Item list \<Rightarrow> int \<Rightarrow> int \<Rightarrow> int \<Rightarrow> int \<Rightarrow> error + jsnum Item list" where
  "applyLinearCorrection its actual1 desired1 actual2 desired2 =
     (let a = jdiv (ofInt (desired2 - desired1)) (ofInt (actual2 - actual1));
          b = jsub (ofInt desired1) (jmul a (ofInt actual1))
      in Inr (map (\<lambda>item.
                \<lparr>endAt = jfloor (jadd (jmul a (ofInt (endAt item))) b),
                 index = index item,
                 lines = lines item,
                 startAt = jfloor (jadd (jmul a (ofInt (startAt item))) b)\<rparr>) its))"

text \<open>An item with one line of plain text, as a caller builds it.\<close>

definition textItem :: "int \<Rightarrow> int \<Rightarrow> jsstring \<Rightarrow> int Item" where
  "textItem s e t =
     \<lparr>endAt = e, index = None, lines = [\<lparr>items = [\<lparr>inlineStyle = None, text = t\<rparr>]\<rparr>],
      startAt = s\<rparr>"

section \<open>src/utils/helpers.ts and src/utils/scanner.ts\<close>

definition hasBOM :: "jsstring \<Rightarrow> bool" where
  "hasBOM s = (s \<noteq> [] \<and> hd s = 65279)"

definition removeBOM :: "jsstring \<Rightarrow> jsstring" where
  "removeBOM s = (if hasBOM s then drop 1 s else s)"

text \<open>
  \<open>s.lastIndexOf(c)\<close> for a string \<open>c\<close> of one code unit: the position of its last
  occurrence, \<open>None\<close> for the \<open>-1\<close> of a string without it.
\<close>

definition lastIndexOf :: "jsstring \<Rightarrow> nat \<Rightarrow> nat option" where
  "lastIndexOf s c =
     (if c \<in> set s then Some (length s - 1 - length (takeWhile (\<lambda>x. x \<noteq> c) (rev s)))
      else None)"

definition getFileExtension :: "jsstring \<Rightarrow> jsstring" where
  "getFileExtension filename =
     (case lastIndexOf filename 46 of
        None \<Rightarrow> []
      | Some lastDot \<Rightarrow> toLowerCase (drop lastDot filename))"

text \<open>The \<open>null\<close> of an extension that is not in the switch is \<open>None\<close>.\<close>

definition detectFormat :: "jsstring \<Rightarrow> jsstring option" where
  "detectFormat filename =
     (let ext = getFileExtension filename
      in if ext = str ''.srt'' then Some (str ''srt'')
         else if ext = str ''.vtt'' then Some (str ''webvtt'')
         else if ext = str ''.ttml'' \<or> ext = str ''.dfxp'' then Some (str ''ttml'')
         else if ext = str ''.ssa'' \<or> ext = str ''.ass'' then Some (str ''ssa'')
         else if ext = str ''.stl'' then Some (str ''stl'')
         else if ext = str ''.ts'' then Some (str ''teletext'')
         else None)"

text \<open>
  \<open>text.split(/\r\n|\r|\n/)\<close>: at a carriage return followed by a line feed the first
  alternative takes both.
\<close>

fun splitLines_go :: "jsstring \<Rightarrow> jsstring \<Rightarrow> jsstring list" where
  "splitLines_go cur [] = [cur]"
| "splitLines_go cur (c # cs) =
     (if c = 13 \<and> cs \<noteq> [] \<and> hd cs = 10 then cur # splitLines_go [] (drop 1 cs)
      else if c = 13 \<or> c = 10 then cur # splitLines_go [] cs
      else splitLines_go (cur @ [c]) cs)"

definition splitLines :: "jsstring \<Rightarrow> jsstring list" where
  "splitLines s =
     (let ls = splitLines_go [] s
      in if length ls > 0 \<and> ls ! (length ls - 1) = [] then butlast ls else ls)"

section \<open>src/formats/srt.ts\<close>

definition SRT_TIME_BOUNDARIES_SEPARATOR :: jsstring where
  "SRT_TIME_BOUNDARIES_SEPARATOR = str ''-->''"

text \<open>The separators are tried in order; an error of \<open>parseDuration\<close> is caught.\<close>

definition parseSRTDuration :: "jsstring \<Rightarrow> error + jsnum" where
  "parseSRTDuration input =
     (case parseDuration input (str '','') 3 of
        Inr d \<Rightarrow> Inr d
      | Inl e1 \<Rightarrow>
          (case parseDuration input (str ''.'') 3 of
             Inr d \<Rightarrow> Inr d
           | Inl e2 \<Rightarrow>
               (case parseDuration input (str '':'') 3 of
                  Inr d \<Rightarrow> Inr d
                | Inl e3 \<Rightarrow> Inl Error)))"

definition formatSRTDuration :: "int \<Rightarrow> jsstring" where
  "formatSRTDuration duration = formatDuration duration (str '','') 3"

text \<open>
  The tag pattern \<open>/<\/?([a-z]+)(?:\s+([^>]+))?>/gi\<close> at the start of a string. Without
  the \<open>u\<close> flag, \<open>[a-z]\<close> under \<open>i\<close> is the ASCII letters. The name is the whole run of
  letters (after a shorter one comes a letter, which neither alternative accepts). After
  the name comes \<open>>\<close> at once, or the group: white space, then the text up to the
  next \<open>>\<close>, which must exist; when that text is all white space, the group's
  \<open>\s+\<close> gives its last code unit back to \<open>[^>]+\<close>, so there must be two of them. The
  result is: closing, the name, the second group, and the text after the match.
\<close>

definition isAsciiLetter :: "nat \<Rightarrow> bool" where
  "isAsciiLetter c = ((65 \<le> c \<and> c \<le> 90) \<or> (97 \<le> c \<and> c \<le> 122))"

definition tagAt :: "jsstring \<Rightarrow> (bool \<times> jsstring \<times> jsstring option \<times> jsstring) option" where
  "tagAt s =
     (case s of
        [] \<Rightarrow> None
      | c # r0 \<Rightarrow>
          if c \<noteq> 60 then None
          else
            (let isClosing = (r0 \<noteq> [] \<and> hd r0 = 47);
                 r1 = (if isClosing then drop 1 r0 else r0);
                 name = takeWhile isAsciiLetter r1;
                 r2 = dropWhile isAsciiLetter r1
             in if name = [] then None
                else if r2 \<noteq> [] \<and> hd r2 = 62 then Some (isClosing, name, None, drop 1 r2)
                else
                  (let u = takeWhile (\<lambda>x. x \<noteq> 62) r2;
                       r3 = dropWhile (\<lambda>x. x \<noteq> 62) r2;
                       w = takeWhile isWhiteSpace u;
                       b = dropWhile isWhiteSpace u
                   in if r3 = [] \<or> w = [] then None
                      else if b \<noteq> [] then Some (isClosing, name, Some b, drop 1 r3)
                      else if length w \<ge> 2
                      then Some (isClosing, name, Some [last w], drop 1 r3)
                      else None)))"

text \<open>
  \<open>attributes.match(/color\s*=\s*["']([^"']+)["']/i)\<close>: the first group of the leftmost
  match.
\<close>

definition isQuote :: "nat \<Rightarrow> bool" where
  "isQuote c = (c = 34 \<or> c = 39)"

definition colorAt :: "jsstring \<Rightarrow> jsstring option" where
  "colorAt s =
     (if length s < 5 \<or> toLowerCase (take 5 s) \<noteq> str ''color'' \<or> \<not> list_all isAsciiLetter (take 5 s)
      then None
      else
        (let r1 = dropWhile isWhiteSpace (drop 5 s)
         in if r1 = [] \<or> hd r1 \<noteq> 61 then None
            else
              (let r2 = dropWhile isWhiteSpace (drop 1 r1)
               in if r2 = [] \<or> \<not> isQuote (hd r2) then None
                  else
                    (let v = takeWhile (\<lambda>x. \<not> isQuote x) (drop 1 r2);
                         r3 = dropWhile (\<lambda>x. \<not> isQuote x) (drop 1 r2)
                     in if v = [] \<or> r3 = [] then None else Some v))))"

fun colorMatch :: "jsstring \<Rightarrow> jsstring option" where
  "colorMatch [] = None"
| "colorMatch (c # cs) =
     (case colorAt (c # cs) of Some v \<Rightarrow> Some v | None \<Rightarrow> colorMatch cs)"

definition emptyStyle :: StyleAttributes where
  "emptyStyle =
     \<lparr>srtBold = None, srtColor = None, srtItalics = None, srtPosition = None,
      srtUnderline = None\<rparr>"

text \<open>The two \<open>switch\<close> statements on the tag name.\<close>

definition applyTag :: "bool \<Rightarrow> jsstring \<Rightarrow> jsstring option \<Rightarrow> StyleAttributes \<Rightarrow> StyleAttributes" where
  "applyTag isClosing tagName attributes currentStyle =
     (if isClosing then
        (if tagName = str ''b'' then currentStyle\<lparr>srtBold := Some False\<rparr>
         else if tagName = str ''i'' then currentStyle\<lparr>srtItalics := Some False\<rparr>
         else if tagName = str ''u'' then currentStyle\<lparr>srtUnderline := Some False\<rparr>
         else if tagName = str ''font'' then currentStyle\<lparr>srtColor := None\<rparr>
         else currentStyle)
      else
        (if tagName = str ''b'' then currentStyle\<lparr>srtBold := Some True\<rparr>
         else if tagName = str ''i'' then currentStyle\<lparr>srtItalics := Some True\<rparr>
         else if tagName = str ''u'' then currentStyle\<lparr>srtUnderline := Some True\<rparr>
         else if tagName = str ''font'' then
           (case attributes of
              None \<Rightarrow> currentStyle
            | Some a \<Rightarrow>
                if a = [] then currentStyle
                else (case colorMatch a of
                        None \<Rightarrow> currentStyle
                      | Some v \<Rightarrow> currentStyle\<lparr>srtColor := Some v\<rparr>))
         else currentStyle))"

text \<open>
  The style of a new line item: a copy of the running style when one of its four
  attributes is truthy, otherwise none.
\<close>

definition itemStyle :: "StyleAttributes \<Rightarrow> StyleAttributes option" where
  "itemStyle currentStyle =
     (if srtBold currentStyle = Some True \<or> srtItalics currentStyle = Some True
         \<or> srtUnderline currentStyle = Some True
         \<or> (case srtColor currentStyle of None \<Rightarrow> False | Some v \<Rightarrow> v \<noteq> [])
      then Some currentStyle else None)"

text \<open>
  The text between two tags, or after the last one, becomes a line item when it is not
  empty and not all white space.
\<close>

definition textItems :: "StyleAttributes \<Rightarrow> jsstring \<Rightarrow> LineItem list" where
  "textItems currentStyle t =
     (if t \<noteq> [] \<and> trim t \<noteq> []
      then [\<lparr>inlineStyle = itemStyle currentStyle, text = unescapeHTML t\<rparr>] else [])"

lemma tagAt_shorter:
  assumes "tagAt s = Some (isClosing, name, attributes, rest)"
  shows "length rest < length s"
proof (cases s)
  case Nil
  with assms show ?thesis by (simp add: tagAt_def)
next
  case (Cons c r0)
  define r1 where "r1 = (if r0 \<noteq> [] \<and> hd r0 = 47 then drop 1 r0 else r0)"
  define r2 where "r2 = dropWhile isAsciiLetter r1"
  define r3 where "r3 = dropWhile (\<lambda>x. x \<noteq> 62) r2"
  have "length r1 \<le> length r0" by (simp add: r1_def)
  moreover have "length r2 \<le> length r1" unfolding r2_def by (rule length_dropWhile_le)
  moreover have "length r3 \<le> length r2" unfolding r3_def by (rule length_dropWhile_le)
  ultimately have l: "length (drop 1 r2) < length s" "length (drop 1 r3) < length s"
    by (simp_all add: Cons)
  from assms have "rest = drop 1 r2 \<or> rest = drop 1 r3"
    unfolding tagAt_def Cons list.case Let_def r1_def [symmetric] r2_def [symmetric]
      r3_def [symmetric]
    by (auto split: if_splits)
  with l show ?thesis by auto
qed

text \<open>
  The \<open>exec\<close> loop of \<open>parseSRTText\<close>: \<open>acc\<close> is the text since \<open>lastIndex\<close>, the
  string is what is left of the input from the position the search has reached.
\<close>

function parseSRTText_go :: "StyleAttributes \<Rightarrow> jsstring \<Rightarrow> jsstring \<Rightarrow> LineItem list" where
  "parseSRTText_go currentStyle acc [] = textItems currentStyle acc"
| "parseSRTText_go currentStyle acc (c # cs) =
     (case tagAt (c # cs) of
        Some (isClosing, name, attributes, rest) \<Rightarrow>
          textItems currentStyle acc
            @ parseSRTText_go (applyTag isClosing (toLowerCase name) attributes currentStyle) [] rest
      | None \<Rightarrow> parseSRTText_go currentStyle (acc @ [c]) cs)"
  by pat_completeness auto
termination
  by (relation "measure (\<lambda>(currentStyle, acc, s). length s)")
     (auto dest: tagAt_shorter)

definition parseSRTText :: "jsstring \<Rightarrow> StyleAttributes \<Rightarrow> Line" where
  "parseSRTText input styleAttrs =
     (if trim input = [] then \<lparr>items = [\<lparr>inlineStyle = None, text = []\<rparr>]\<rparr>
      else \<lparr>items = parseSRTText_go styleAttrs [] input\<rparr>)"

text \<open>
  \<open>readFromSRT\<close>. The trailing lines that are empty (no line item, or no line item with a
  non-empty text) are popped one by one.
\<close>

definition isEmptyLine :: "Line \<Rightarrow> bool" where
  "isEmptyLine line = (length (items line) = 0 \<or> list_all (\<lambda>item. text item = []) (items line))"

definition popEmptyLines :: "Line list \<Rightarrow> Line list" where
  "popEmptyLines ls = rev (dropWhile isEmptyLine (rev ls))"

definition freshItem :: "jsnum Item" where
  "freshItem = \<lparr>endAt = ofInt 0, index = None, lines = [], startAt = ofInt 0\<rparr>"

text \<open>
  A line with the boundary token closes the current item and opens the next one. The
  state is the current item, the running style and the items pushed so far.
\<close>

definition boundaryLine ::
  "jsstring \<Rightarrow> jsnum Item \<times> StyleAttributes \<times> jsnum Item list
     \<Rightarrow> error + jsnum Item \<times> StyleAttributes \<times> jsnum Item list" where
  "boundaryLine line st =
     (case st of (currentItem0, styleAttrs0, out0) \<Rightarrow>
        (let styleAttrs = emptyStyle;
             index0 = (if length (lines currentItem0) > 0
                       then join [] (map text (items (lines currentItem0 ! (length (lines currentItem0) - 1))))
                       else []);
             currentItem1 = (if length (lines currentItem0) > 0 \<and> index0 \<noteq> []
                             then currentItem0\<lparr>lines := butlast (lines currentItem0)\<rparr>
                             else currentItem0);
             currentItem2 = currentItem1\<lparr>lines := popEmptyLines (lines currentItem1)\<rparr>;
             out = (if length (lines currentItem2) > 0 \<or> jgt (startAt currentItem2) (ofInt 0)
                    then out0 @ [currentItem2] else out0);
             currentItem3 = (if index0 \<noteq> []
                             then (case parseInt index0 of
                                     None \<Rightarrow> freshItem
                                   | Some indexNum \<Rightarrow> freshItem\<lparr>index := Some indexNum\<rparr>)
                             else freshItem);
             parts = split line SRT_TIME_BOUNDARIES_SEPARATOR
         in if length parts < 2 then Inl Error
            else
              (case parseSRTDuration (trim (parts ! 0)) of
                 Inl e \<Rightarrow> Inl Error
               | Inr s \<Rightarrow>
                   (let endParts = splitWhiteSpace (trim (parts ! 1));
                        endTime = endParts ! 0
                    in case parseSRTDuration endTime of
                         Inl e \<Rightarrow> Inl Error
                       | Inr e \<Rightarrow>
                           Inr (currentItem3\<lparr>startAt := s, endAt := e\<rparr>, styleAttrs, out)))))"

definition textLine ::
  "jsstring \<Rightarrow> jsnum Item \<times> StyleAttributes \<times> jsnum Item list
     \<Rightarrow> jsnum Item \<times> StyleAttributes \<times> jsnum Item list" where
  "textLine line st =
     (case st of (currentItem, styleAttrs, out) \<Rightarrow>
        (let parsedLine = parseSRTText line styleAttrs
         in if length (items parsedLine) > 0
            then (currentItem\<lparr>lines := lines currentItem @ [parsedLine]\<rparr>, styleAttrs, out)
            else (currentItem, styleAttrs, out)))"

text \<open>The \<open>while (scanner.hasNext())\<close> loop, over the lines the scanner has not read yet.\<close>

fun readFromSRT_loop ::
  "jsstring list \<Rightarrow> jsnum Item \<times> StyleAttributes \<times> jsnum Item list
     \<Rightarrow> error + jsnum Item \<times> StyleAttributes \<times> jsnum Item list" where
  "readFromSRT_loop [] st = Inr st"
| "readFromSRT_loop (l # ls) st =
     (let line = trim l
      in if stringIncludes line SRT_TIME_BOUNDARIES_SEPARATOR
         then (case boundaryLine line st of
                 Inl e \<Rightarrow> Inl e
               | Inr st' \<Rightarrow> readFromSRT_loop ls st')
         else readFromSRT_loop ls (textLine line st))"

definition readFromSRT :: "jsstring \<Rightarrow> error + jsnum Item list" where
  "readFromSRT content =
     (case readFromSRT_loop (splitLines (removeBOM content)) (freshItem, emptyStyle, []) of
        Inl e \<Rightarrow> Inl e
      | Inr (currentItem, styleAttrs, out) \<Rightarrow>
          if length (lines currentItem) > 0 \<or> jgt (startAt currentItem) (ofInt 0)
          then Inr (out @ [currentItem\<lparr>lines := popEmptyLines (lines currentItem)\<rparr>])
          else Inr out)"

text \<open>\<open>writeToSRT\<close>. A value is truthy unless it is undefined, false, zero or empty.\<close>

definition lineItemToSRTString :: "LineItem \<Rightarrow> jsstring" where
  "lineItemToSRTString item =
     (let style = inlineStyle item;
          color = (case style of None \<Rightarrow> None | Some a \<Rightarrow> srtColor a);
          bold = (case style of None \<Rightarrow> False | Some a \<Rightarrow> srtBold a = Some True);
          italic = (case style of None \<Rightarrow> False | Some a \<Rightarrow> srtItalics a = Some True);
          underline = (case style of None \<Rightarrow> False | Some a \<Rightarrow> srtUnderline a = Some True);
          position = (case style of None \<Rightarrow> None | Some a \<Rightarrow> srtPosition a)
      in (case color of None \<Rightarrow> [] | Some v \<Rightarrow>
            if v = [] then [] else str ''<font color=\"'' @ v @ str ''\">'')
         @ (if bold then str ''<b>'' else [])
         @ (if italic then str ''<i>'' else [])
         @ (if underline then str ''<u>'' else [])
         @ (case position of None \<Rightarrow> [] | Some n \<Rightarrow>
              if n = 0 then [] else str ''{'' @ [92] @ str ''an'' @ toString (int n) @ str ''}'')
         @ escapeHTML (text item)
         @ (if underline then str ''</u>'' else [])
         @ (if italic then str ''</i>'' else [])
         @ (if bold then str ''</b>'' else [])
         @ (case color of None \<Rightarrow> [] | Some v \<Rightarrow> if v = [] then [] else str ''</font>''))"

definition lineToSRTString :: "Line \<Rightarrow> jsstring" where
  "lineToSRTString line = join [] (map lineItemToSRTString (items line)) @ [10]"

text \<open>The loop of \<open>writeToSRT\<close> from position \<open>i\<close> on: what it appends to the output.\<close>

fun writeToSRT_loop :: "nat \<Rightarrow> int Item list \<Rightarrow> jsstring" where
  "writeToSRT_loop i [] = []"
| "writeToSRT_loop i (item # its) =
     toString (int i + 1) @ [10]
     @ formatSRTDuration (startAt item) @ str '' '' @ SRT_TIME_BOUNDARIES_SEPARATOR @ str '' ''
     @ formatSRTDuration (endAt item) @ [10]
     @ concat (map lineToSRTString (lines item))
     @ [10]
     @ writeToSRT_loop (Suc i) its"

definition writeToSRT :: "int Item list \<Rightarrow> error + jsstring" where
  "writeToSRT its =
     (if length its = 0 then Inl Error
      else Inr (trimEnd ([65279] @ writeToSRT_loop 0 its) @ [10]))"

section \<open>src/subtitles.ts: the entry points\<close>

definition readFromString :: "jsstring \<Rightarrow> jsstring \<Rightarrow> error + jsnum Item list" where
  "readFromString content format =
     (if toLowerCase format = str ''srt'' then readFromSRT content
      else Inl InvalidExtensionError)"

definition writeToString :: "int Item list \<Rightarrow> jsstring \<Rightarrow> error + jsstring" where
  "writeToString its format =
     (if length its = 0 then Inl NoSubtitlesToWriteError
      else if toLowerCase format = str ''srt'' then writeToSRT its
      else Inl InvalidExtensionError)"

text \<open>
  \<open>openFile\<close> and \<open>writeFile\<close>, without the file system: what \<open>fs.readFileSync\<close> returns
  is the parameter \<open>content\<close> of \<open>openFile\<close>, and \<open>writeFile\<close> returns the text it hands to
  \<open>fs.writeFileSync\<close>.
\<close>

definition openFile :: "jsstring \<Rightarrow> jsstring \<Rightarrow> error + jsnum Item list" where
  "openFile filename content =
     (case detectFormat filename of
        None \<Rightarrow> Inl InvalidExtensionError
      | Some format \<Rightarrow> readFromString content format)"

definition writeFile :: "int Item list \<Rightarrow> jsstring \<Rightarrow> error + jsstring" where
  "writeFile its filename =
     (case detectFormat filename of
        None \<Rightarrow> Inl InvalidExtensionError
      | Some format \<Rightarrow> writeToString its format)"

section \<open>The loops as list functions\<close>

text \<open>
  Each loop over the array does to every item what the following functions do to one
  item; the lemmas after them say so, for a loop started at any position.
\<close>

definition add_item :: "int \<Rightarrow> int Item \<Rightarrow> int Item list" where
  "add_item duration item0 =
     (let item = item0\<lparr>endAt := endAt item0 + duration\<rparr>;
          item = item\<lparr>startAt := startAt item + duration\<rparr>
      in if endAt item \<le> 0 \<and> startAt item \<le> 0 then []
         else if startAt item < 0 then [item\<lparr>startAt := 0\<rparr>]
         else [item])"

definition fragment_item :: "int \<Rightarrow> int \<Rightarrow> int Item \<Rightarrow> int Item list" where
  "fragment_item fragmentStart fragmentEnd item =
     (if startAt item < fragmentStart \<and> endAt item > fragmentStart
      then [item\<lparr>endAt := fragmentStart\<rparr>, item\<lparr>startAt := fragmentStart\<rparr>]
      else if startAt item < fragmentEnd \<and> endAt item > fragmentEnd
      then [item\<lparr>endAt := fragmentEnd\<rparr>, item\<lparr>startAt := fragmentEnd\<rparr>]
      else [item])"

text \<open>
  For \<open>forceDuration\<close>: an item whose end is past the duration is clipped to it, and
  the items kept are those before the first one that starts at or after the duration.
  \<open>truncate_items\<close> is the same on integer timestamps.
\<close>

definition clipEnd :: "jsnum \<Rightarrow> jsnum Item \<Rightarrow> jsnum Item" where
  "clipEnd duration item = (if jgt (endAt item) duration then item\<lparr>endAt := duration\<rparr> else item)"

definition startsBefore :: "jsnum \<Rightarrow> jsnum Item \<Rightarrow> bool" where
  "startsBefore duration item = (\<not> jge (startAt item) duration)"

fun truncate_items :: "int \<Rightarrow> int Item list \<Rightarrow> int Item list" where
  "truncate_items duration [] = []"
| "truncate_items duration (item # its) =
     (if startAt item \<ge> duration then []
      else (if endAt item > duration then item\<lparr>endAt := duration\<rparr> else item)
             # truncate_items duration its)"

text \<open>
  The properties the claims speak of: no timestamp of an array is negative, and an item
  spans the boundary \<open>k * windowSize\<close>.
\<close>

definition nonNegative :: "int Item list \<Rightarrow> bool" where
  "nonNegative its = (\<forall>item \<in> set its. 0 \<le> startAt item \<and> 0 \<le> endAt item)"



text \<open>A string of decimal digits, at least one.\<close>

definition digitString :: "jsstring \<Rightarrow> bool" where
  "digitString s = (s \<noteq> [] \<and> list_all isDigit s)"

text \<open>The three lines of the example of the specification.\<close>

definition line1 :: jsstring where "line1 = str ''1''"

definition line2 :: jsstring where "line2 = str ''00:01:00,000 --> 00:02:00,000''"

definition line3 :: jsstring where "line3 = str ''Hello World''"

text \<open>A boundary line whose end time has a fourth field that is not a number.\<close>

definition lineNaN :: jsstring where "lineNaN = str ''00:00:01,000 --> 1:2:3:x''"

section \<open>Text-markup codec: escaping is undone by unescaping\<close>

lemma entity_at_other: "c \<noteq> 38 \<Longrightarrow> entity_at (c # cs) = None"
  by (simp add: entity_at_def entity_patterns_def str_def)

lemma unescapeHTML_amp: "unescapeHTML (str ''&amp;'' @ t) = 38 # unescapeHTML t"
  by (simp add: entity_at_def entity_patterns_def str_def lookup_or_def HTML_UNESCAPE_MAP_def)

lemma unescapeHTML_lt: "unescapeHTML (str ''&lt;'' @ t) = 60 # unescapeHTML t"
  by (simp add: entity_at_def entity_patterns_def str_def lookup_or_def HTML_UNESCAPE_MAP_def)

lemma unescapeHTML_nbsp: "unescapeHTML (str ''&nbsp;'' @ t) = 160 # unescapeHTML t"
  by (simp add: entity_at_def entity_patterns_def str_def lookup_or_def HTML_UNESCAPE_MAP_def)

lemma escapeHTML_Cons:
  "escapeHTML (c # cs) =
     (if c = 38 then str ''&amp;'' else if c = 60 then str ''&lt;''
      else if c = 160 then str ''&nbsp;'' else [c]) @ escapeHTML cs"
  by (simp add: escapeHTML_def lookup_or_def HTML_ESCAPE_MAP_def str_def)

text \<open>
  Claim C9. For every string \<open>s\<close>, unescaping the escaped string gives \<open>s\<close> back: every
  ampersand of the escaped text starts one of the three entities that \<open>escapeHTML\<close>
  writes, also where \<open>s\<close> itself contains text shaped like an entity.
\<close>

theorem unescapeHTML_escapeHTML: "unescapeHTML (escapeHTML s) = s"
proof (induction s)
  case Nil
  show ?case by (simp add: escapeHTML_def)
next
  case (Cons c cs)
  consider "c = 38" | "c = 60" | "c = 160" | "c \<noteq> 38" "c \<noteq> 60" "c \<noteq> 160"
    by blast
  then show ?case
  proof cases
    case 1
    then show ?thesis using Cons.IH unescapeHTML_amp [of "escapeHTML cs"]
      by (simp add: escapeHTML_Cons)
  next
    case 2
    then show ?thesis using Cons.IH unescapeHTML_lt [of "escapeHTML cs"]
      by (simp add: escapeHTML_Cons)
  next
    case 3
    then show ?thesis using Cons.IH unescapeHTML_nbsp [of "escapeHTML cs"]
      by (simp add: escapeHTML_Cons)
  next
    case 4
    then show ?thesis using Cons.IH
      by (simp add: escapeHTML_Cons entity_at_other)
  qed
qed

section \<open>Duration codec\<close>

lemma isDigit_not_space: "isDigit c \<Longrightarrow> \<not> isWhiteSpace c"
  by (auto simp: isDigit_def isWhiteSpace_def)

lemma trim_no_space:
  assumes "s \<noteq> []" "\<not> isWhiteSpace (hd s)" "\<not> isWhiteSpace (last s)"
  shows "trim s = s"
proof -
  from assms(1,2) have a: "dropWhile isWhiteSpace s = s"
    by (cases s) simp_all
  from assms(1,3) have b: "dropWhile isWhiteSpace (rev s) = rev s"
    by (cases "rev s") (simp_all add: last_rev [symmetric] hd_rev)
  show ?thesis by (simp add: trim_def trimStart_def trimEnd_def a b)
qed

lemma trim_digitString: "digitString s \<Longrightarrow> trim s = s"
proof -
  assume d: "digitString s"
  then have "s \<noteq> []" "isDigit (hd s)" "isDigit (last s)"
    by (auto simp: digitString_def list_all_iff)
  then show ?thesis by (intro trim_no_space isDigit_not_space)
qed

lemma parseInt_digitString: "digitString s \<Longrightarrow> parseInt s = Some (int (digitsValue s))"
proof -
  assume d: "digitString s"
  then obtain c cs where s: "s = c # cs" by (cases s) (auto simp: digitString_def)
  with d have c: "isDigit c" and all: "list_all isDigit s" by (auto simp: digitString_def)
  from c have nosign: "c \<noteq> 43" "c \<noteq> 45" by (auto simp: isDigit_def)
  from c have ts: "trimStart s = s" by (simp add: trimStart_def s isDigit_not_space)
  from all have tw: "takeWhile isDigit s = s" by (simp add: list_all_iff)
  show ?thesis
    unfolding parseInt_def ts Let_def using nosign tw by (simp add: s)
qed

lemma split_go_no_sep:
  "c \<notin> set a \<Longrightarrow> split_go [c] cur a = [cur @ a]"
  by (induction a arbitrary: cur) auto

lemma split_go_sep:
  "c \<notin> set a \<Longrightarrow> split_go [c] cur (a @ c # b) = (cur @ a) # split_go [c] [] b"
  by (induction a arbitrary: cur) auto

lemma digitsValue_snoc: "digitsValue (ds @ [c]) = digitsValue ds * 10 + (c - 48)"
  by (simp add: digitsValue_def)

lemma digitsValue_zeros: "digitsValue (replicate k 48 @ ds) = digitsValue ds"
proof -
  have "foldl (\<lambda>acc c. acc * 10 + (c - 48)) 0 (replicate k 48) = (0::nat)"
    by (induction k) simp_all
  then show ?thesis by (simp add: digitsValue_def)
qed

lemma digitsValue_natToString: "digitsValue (natToString n) = n"
proof (induction n rule: natToString.induct)
  case (1 n)
  show ?case
  proof (cases "n < 10")
    case True
    then show ?thesis by (subst natToString.simps) (simp add: digitsValue_def)
  next
    case False
    with 1 show ?thesis
      by (subst natToString.simps) (simp add: digitsValue_snoc)
  qed
qed

lemma digitString_natToString: "digitString (natToString n)"
proof (induction n rule: natToString.induct)
  case (1 n)
  show ?case
  proof (cases "n < 10")
    case True
    then show ?thesis by (subst natToString.simps) (simp add: digitString_def isDigit_def)
  next
    case False
    with 1 have "digitString (natToString (n div 10))" by simp
    moreover have "isDigit (48 + n mod 10)" by (simp add: isDigit_def)
    ultimately show ?thesis using False
      by (subst natToString.simps) (simp add: digitString_def)
  qed
qed

lemma length_natToString: "n < 10 ^ k \<Longrightarrow> 0 < k \<Longrightarrow> length (natToString n) \<le> k"
proof (induction n arbitrary: k rule: natToString.induct)
  case (1 n)
  show ?case
  proof (cases "n < 10")
    case True
    with 1(3) show ?thesis by (subst natToString.simps) simp
  next
    case False
    with 1(2) obtain k' where k: "k = Suc k'" "0 < k'"
      by (cases k; cases "k - 1") auto
    with 1(2) have "n div 10 < 10 ^ k'" by (simp add: less_mult_imp_div_less mult.commute)
    from 1(1) [OF False this k(2)] False k show ?thesis
      by (subst natToString.simps) simp
  qed
qed

lemma digitString_padStart: "digitString s \<Longrightarrow> digitString (padStart s n)"
  by (auto simp add: digitString_def padStart_def isDigit_def list_all_iff)

lemma digitsValue_padStart: "digitsValue (padStart s n) = digitsValue s"
  by (simp add: padStart_def digitsValue_zeros)

lemma digitString_set: "digitString s \<Longrightarrow> c \<in> set s \<Longrightarrow> 48 \<le> c \<and> c \<le> 57"
  by (auto simp: digitString_def list_all_iff isDigit_def)

lemma digitString_not_mem: "digitString s \<Longrightarrow> c < 48 \<or> 57 < c \<Longrightarrow> c \<notin> set s"
  using digitString_set [of s c] by auto

lemma field_digitString:
  "digitString s \<Longrightarrow> numberOf (parseInt (trim s)) = Num (of_nat (digitsValue s))"
  by (simp add: trim_digitString parseInt_digitString numberOf_def ofInt_def)

lemma split_time:
  assumes "digitString H" "digitString M" "digitString S"
  shows "split (H @ 58 # M @ 58 # S) (str '':'') = [H, M, S]"
proof -
  have n: "58 \<notin> set H" "58 \<notin> set M" "58 \<notin> set S"
    using assms by (simp_all add: digitString_not_mem)
  have "split_go [58] [] (H @ 58 # M @ 58 # S) = H # split_go [58] [] (M @ 58 # S)"
    using split_go_sep [OF n(1), of "[]" "M @ 58 # S"] by simp
  also have "split_go [58] [] (M @ 58 # S) = M # split_go [58] [] S"
    using split_go_sep [OF n(2), of "[]" S] by simp
  also have "split_go [58] [] S = [S]"
    using split_go_no_sep [OF n(3), of "[]"] by simp
  finally show ?thesis by (simp add: split_def str_def)
qed

lemma trim_time:
  assumes "digitString H" "digitString S"
  shows "trim (H @ 58 # M @ 58 # S) = H @ 58 # M @ 58 # S"
proof (rule trim_no_space)
  show "H @ 58 # M @ 58 # S \<noteq> []" by simp
  from assms(1) have "H \<noteq> []" "isDigit (hd H)" by (auto simp: digitString_def list_all_iff)
  then show "\<not> isWhiteSpace (hd (H @ 58 # M @ 58 # S))"
    by (simp add: isDigit_not_space)
  from assms(2) have "S \<noteq> []" "isDigit (last S)" by (auto simp: digitString_def list_all_iff)
  then show "\<not> isWhiteSpace (last (H @ 58 # M @ 58 # S))"
    by (simp add: isDigit_not_space)
qed

lemma split_millisecond:
  assumes "digitString H" "digitString M" "digitString S" "digitString F" "c = 44 \<or> c = 46"
  shows "split (H @ 58 # M @ 58 # S @ c # F) [c] = [H @ 58 # M @ 58 # S, F]"
proof -
  have "c \<notin> set H" "c \<notin> set M" "c \<notin> set S" "c \<notin> set F" "c \<noteq> 58"
    using assms by (auto simp add: digitString_not_mem)
  then have n: "c \<notin> set (H @ 58 # M @ 58 # S)" "c \<notin> set F" by auto
  have "split_go [c] [] ((H @ 58 # M @ 58 # S) @ c # F)
          = (H @ 58 # M @ 58 # S) # split_go [c] [] F"
    using split_go_sep [OF n(1), of "[]" F] by simp
  also have "split_go [c] [] F = [F]"
    using split_go_no_sep [OF n(2), of "[]"] by simp
  finally show ?thesis by (simp add: split_def)
qed

lemma pow10_nat: "0 \<le> e \<Longrightarrow> pow10 e = 10 ^ nat e"
  by (simp add: pow10_def)

lemma parseDuration_fields_digits:
  assumes "digitString H" "digitString M" "digitString S" "digitString F"
    and "length F \<le> 3" and "c = 44 \<or> c = 46"
  shows "parseDuration (H @ 58 # M @ 58 # S @ c # F) [c] n
           = Inr (Num (of_nat (digitsValue F) * pow10 (n - int (length F))
                       + of_nat (digitsValue S * 1000 + digitsValue M * 60000
                                 + digitsValue H * 3600000)))"
proof -
  have parts: "split (H @ 58 # M @ 58 # S @ c # F) [c] = [H @ 58 # M @ 58 # S, F]"
    using assms by (intro split_millisecond)
  have ms: "parseInt F = Some (int (digitsValue F))" and tF: "trim F = F"
    using assms(4) by (simp_all add: trim_digitString parseInt_digitString)
  have tp: "split (trim (H @ 58 # M @ 58 # S)) (str '':'') = [H, M, S]"
    using assms by (simp add: trim_time split_time)
  have join1: "join [c] [H @ 58 # M @ 58 # S] = H @ 58 # M @ 58 # S" by simp
  show ?thesis
    using assms(5)
    by (simp add: parseDuration_def parts Let_def tF ms tp join1 field_digitString
          assms(1,2,3) ofInt_def)
qed

lemma parseDuration_fields:
  assumes "digitString H" "digitString M" "digitString S" "digitString F"
    and "length F \<le> 3" and "c = 44 \<or> c = 46"
  shows "parseDuration (H @ 58 # M @ 58 # S @ c # F) [c] 3
           = Inr (Num (of_nat (digitsValue F * 10 ^ (3 - length F) + digitsValue S * 1000
                            + digitsValue M * 60000 + digitsValue H * 3600000)))"
proof -
  have p: "pow10 (3 - int (length F)) = 10 ^ (3 - length F)"
    using assms(5) by (simp add: pow10_nat nat_diff_distrib)
  show ?thesis
    unfolding parseDuration_fields_digits [OF assms] p by simp
qed

lemma jsRem_nonneg: "0 \<le> a \<Longrightarrow> 0 < b \<Longrightarrow> jsRem a b = a mod b"
  by (cases "a = 0") (simp_all add: jsRem_def)

lemma toString_nonneg: "0 \<le> n \<Longrightarrow> toString n = natToString (nat n)"
  by (simp add: toString_def)

lemma formatDuration_nonneg:
  assumes "0 \<le> d"
  shows "formatDuration d [c] 3 =
           padStart (natToString (nat (d div 3600000))) 2 @ 58 #
           padStart (natToString (nat (d mod 3600000 div 60000))) 2 @ 58 #
           padStart (natToString (nat (d mod 60000 div 1000))) 2 @ c #
           padStart (natToString (nat (d mod 1000))) 3"
  using assms
  by (simp add: formatDuration_def Let_def jsRem_nonneg toString_nonneg pow10_def str_def
        pos_imp_zdiv_nonneg_iff)

lemma split3:
  "(d::int) = d mod 1000 + d mod 60000 div 1000 * 1000 + d mod 3600000 div 60000 * 60000
            + d div 3600000 * 3600000"
proof -
  have a: "d mod 3600000 mod 60000 = d mod 60000" by (rule mod_mod_cancel) simp
  have b: "d mod 60000 mod 1000 = d mod 1000" by (rule mod_mod_cancel) simp
  have 1: "d = d div 3600000 * 3600000 + d mod 3600000"
    by (rule div_mult_mod_eq [symmetric])
  have 2: "d mod 3600000 = d mod 3600000 div 60000 * 60000 + d mod 60000"
    using div_mult_mod_eq [of "d mod 3600000" 60000, symmetric] unfolding a .
  have 3: "d mod 60000 = d mod 60000 div 1000 * 1000 + d mod 1000"
    using div_mult_mod_eq [of "d mod 60000" 1000, symmetric] unfolding b .
  show ?thesis using 1 2 3 by linarith
qed

lemma recompose:
  assumes "0 \<le> (d::int)"
  shows "int (nat (d mod 1000) * 10 ^ 0 + nat (d mod 60000 div 1000) * 1000
              + nat (d mod 3600000 div 60000) * 60000 + nat (d div 3600000) * 3600000) = d"
proof -
  have nn: "0 \<le> d mod 1000" "0 \<le> d mod 60000 div 1000" "0 \<le> d mod 3600000 div 60000"
       "0 \<le> d div 3600000"
    using assms by (simp_all add: pos_imp_zdiv_nonneg_iff)
  have "int (nat (d mod 1000) * 10 ^ 0 + nat (d mod 60000 div 1000) * 1000
              + nat (d mod 3600000 div 60000) * 60000 + nat (d div 3600000) * 3600000)
        = int (nat (d mod 1000)) + int (nat (d mod 60000 div 1000)) * 1000
            + int (nat (d mod 3600000 div 60000)) * 60000 + int (nat (d div 3600000)) * 3600000"
    by (simp only: of_nat_add of_nat_mult of_nat_numeral power_0 mult_1_right)
  also have "\<dots> = d mod 1000 + d mod 60000 div 1000 * 1000 + d mod 3600000 div 60000 * 60000
            + d div 3600000 * 3600000"
    by (simp only: int_nat_eq nn if_True)
  also have "\<dots> = d" by (rule split3 [symmetric])
  finally show ?thesis .
qed

text \<open>
  Claim C1, amended. For every integer \<open>d\<close> with \<open>0 \<le> d < 24 * 3600 * 1000\<close> and each of
  the separators \<open>,\<close> and \<open>.\<close>, parsing with three millisecond digits what
  \<open>formatDuration\<close> writes with three digits returns exactly \<open>d\<close>; and on a parse with
  three digits a millisecond segment of \<open>n \<le> 3\<close> digits is multiplied by \<open>10^(3 - n)\<close>,
  for hours, minutes and seconds of at most nine digits each: every number the parser
  computes from them is an integer below \<open>2^53\<close>, which a JavaScript number holds
  exactly.
\<close>

theorem duration_codec:
  "(0 \<le> d \<and> d < 24 * 3600 * 1000 \<and> (sep = str '','' \<or> sep = str ''.'')
      \<longrightarrow> parseDuration (formatDuration d sep 3) sep 3 = Inr (ofInt d))
   \<and> (digitString H \<and> digitString M \<and> digitString S \<and> digitString F \<and> length F \<le> 3
        \<and> length H \<le> 9 \<and> length M \<le> 9 \<and> length S \<le> 9 \<and> (c = 44 \<or> c = 46)
      \<longrightarrow> parseDuration (H @ str '':'' @ M @ str '':'' @ S @ [c] @ F) [c] 3
            = Inr (Num (of_nat (digitsValue F * 10 ^ (3 - length F) + digitsValue S * 1000
                            + digitsValue M * 60000 + digitsValue H * 3600000))))"
proof (intro conjI impI)
  assume a: "0 \<le> d \<and> d < 24 * 3600 * 1000 \<and> (sep = str '','' \<or> sep = str ''.'')"
  then obtain c where c: "sep = [c]" "c = 44 \<or> c = 46" by (auto simp: str_def)
  from a have d: "0 \<le> d" by simp
  let ?H = "padStart (natToString (nat (d div 3600000))) 2"
  let ?M = "padStart (natToString (nat (d mod 3600000 div 60000))) 2"
  let ?S = "padStart (natToString (nat (d mod 60000 div 1000))) 2"
  let ?F = "padStart (natToString (nat (d mod 1000))) 3"
  have ds: "digitString ?H" "digitString ?M" "digitString ?S" "digitString ?F"
    by (simp_all add: digitString_padStart digitString_natToString)
  have "nat (d mod 1000) < 10 ^ 3" by simp
  then have "length (natToString (nat (d mod 1000))) \<le> 3" by (rule length_natToString) simp
  then have len: "length ?F = 3" by (simp add: padStart_def)
  have pf: "parseDuration (?H @ 58 # ?M @ 58 # ?S @ c # ?F) [c] 3
          = Inr (Num (of_nat (digitsValue ?F * 10 ^ (3 - length ?F) + digitsValue ?S * 1000
                            + digitsValue ?M * 60000 + digitsValue ?H * 3600000)))"
    using ds len c(2) by (intro parseDuration_fields) simp_all
  have "parseDuration (formatDuration d sep 3) sep 3
          = Inr (Num (of_nat (digitsValue ?F * 10 ^ (3 - length ?F) + digitsValue ?S * 1000
                            + digitsValue ?M * 60000 + digitsValue ?H * 3600000)))"
    unfolding c(1) formatDuration_nonneg [OF d] by (rule pf)
  also have "\<dots> = Inr (Num (of_int (int (nat (d mod 1000) * 10 ^ 0
              + nat (d mod 60000 div 1000) * 1000
              + nat (d mod 3600000 div 60000) * 60000 + nat (d div 3600000) * 3600000))))"
    unfolding len digitsValue_padStart digitsValue_natToString
    by (simp only: of_int_of_nat_eq diff_self_eq_0)
  also have "\<dots> = Inr (ofInt d)"
    unfolding recompose [OF d] ofInt_def ..
  finally show "parseDuration (formatDuration d sep 3) sep 3 = Inr (ofInt d)" .
next
  assume "digitString H \<and> digitString M \<and> digitString S \<and> digitString F \<and> length F \<le> 3
        \<and> length H \<le> 9 \<and> length M \<le> 9 \<and> length S \<le> 9 \<and> (c = 44 \<or> c = 46)"
  then show "parseDuration (H @ str '':'' @ M @ str '':'' @ S @ [c] @ F) [c] 3
            = Inr (Num (of_nat (digitsValue F * 10 ^ (3 - length F) + digitsValue S * 1000
                            + digitsValue M * 60000 + digitsValue H * 3600000)))"
    using parseDuration_fields [of H M S F c] by (simp add: str_def)
qed

theorem duration_codec_witness:
  "(0::int) \<le> 83456 \<and> (83456::int) < 24 * 3600 * 1000
   \<and> parseDuration (formatDuration 83456 (str ''.'') 3) (str ''.'') 3 = Inr (ofInt 83456)
   \<and> digitString (str ''00'') \<and> digitString (str ''01'') \<and> digitString (str ''23'')
   \<and> digitString (str ''5'') \<and> length (str ''5'') \<le> 3
   \<and> length (str ''00'') \<le> 9 \<and> length (str ''01'') \<le> 9 \<and> length (str ''23'') \<le> 9
   \<and> parseDuration (str ''00:01:23,5'') (str '','') 3 = Inr (Num 83500)"
  using duration_codec [of 83456 "str ''.''" "str ''00''" "str ''01''" "str ''23''" "str ''5''" 44]
  by (simp add: str_def digitString_def isDigit_def digitsValue_def)

text \<open>
  With two digits \<open>formatDuration\<close> keeps the hundredths of a second only: \<open>5\<close> is
  written as \<open>00:00:00.00\<close>, which no parse can turn into \<open>5\<close> again.
\<close>

lemma f5: "formatDuration 5 (str ''.'') 2 = str ''00:00:00.00''"
  by (simp add: formatDuration_def jsRem_def pow10_def toString_def natToString.simps
        padStart_def str_def Let_def)

lemma digitString_00: "digitString [48, 48]"
  by (simp add: digitString_def isDigit_def)

lemma p5: "parseDuration (str ''00:00:00.00'') (str ''.'') 2 = Inr (Num 0)"
  using parseDuration_fields_digits [OF digitString_00 digitString_00 digitString_00 digitString_00, of 46 2]
  by (simp add: str_def digitsValue_def pow10_def)

theorem duration_codec_counterexample:
  "formatDuration 5 (str ''.'') 2 = str ''00:00:00.00''
   \<and> parseDuration (formatDuration 5 (str ''.'') 2) (str ''.'') 2 = Inr (Num 0)
   \<and> parseDuration (formatDuration 5 (str ''.'') 2) (str ''.'') 2 \<noteq> Inr (ofInt 5)"
  by (simp add: f5 p5 ofInt_def)

text \<open>
  With two digits the parse multiplies by \<open>10^(2 - n)\<close>: the two-digit segment \<open>12\<close> of
  \<open>00:00:00.12\<close> is read as \<open>12\<close>.
\<close>

lemma parseDuration_two_digits_example:
  "parseDuration (str ''00:00:00.12'') (str ''.'') 2 = Inr (Num 12)"
proof -
  have "digitString [49, 50]" by (simp add: digitString_def isDigit_def)
  from parseDuration_fields_digits
         [OF digitString_00 digitString_00 digitString_00 this, of 46 2]
  show ?thesis by (simp add: str_def digitsValue_def pow10_def)
qed

section \<open>Timeline engine\<close>

lemma add_loop_eq:
  "i \<le> length its \<Longrightarrow>
     add_loop duration i its = take i its @ concat (map (add_item duration) (drop i its))"
proof (induction duration i its rule: add_loop.induct)
  case (1 duration i its)
  show ?case
  proof (cases "i < length its")
    case False
    with "1.prems" show ?thesis by (subst add_loop.simps) simp
  next
    case True
    let ?x = "its ! i"
    let ?y = "?x\<lparr>endAt := endAt ?x + duration, startAt := startAt ?x + duration\<rparr>"
    have dr: "drop i its = ?x # drop (Suc i) its"
      using True by (simp add: Cons_nth_drop_Suc)
    have ai: "add_item duration ?x =
                (if endAt ?y \<le> 0 \<and> startAt ?y \<le> 0 then []
                 else if startAt ?y < 0 then [?y\<lparr>startAt := 0\<rparr>] else [?y])"
      by (simp add: add_item_def Let_def)
    show ?thesis
    proof (cases "endAt ?y \<le> 0 \<and> startAt ?y \<le> 0")
      case rm: True
      have "add_loop duration i its = add_loop duration i (take i its @ drop (Suc i) its)"
        using True rm by (subst add_loop.simps) (auto simp add: Let_def)
      also have "\<dots> = take i its @ concat (map (add_item duration) (drop (Suc i) its))"
        using "1.IH"(1) [OF True refl refl refl] rm True by (simp add: min_def)
      finally show ?thesis using rm by (simp add: dr ai)
    next
      case keep: False
      show ?thesis
      proof (cases "startAt ?y < 0")
        case neg: True
        have "add_loop duration i its = add_loop duration (Suc i) (its[i := ?y\<lparr>startAt := 0\<rparr>])"
          using True keep neg by (subst add_loop.simps) (auto simp add: Let_def)
        also have "\<dots> = take i its @ [?y\<lparr>startAt := 0\<rparr>]
                        @ concat (map (add_item duration) (drop (Suc i) its))"
          using "1.IH"(2) [OF True refl refl refl] keep neg True
          by (simp add: take_Suc_conv_app_nth)
        finally show ?thesis using keep neg by (simp add: dr ai)
      next
        case pos: False
        have "add_loop duration i its = add_loop duration (Suc i) (its[i := ?y])"
          using True keep pos by (subst add_loop.simps) (auto simp add: Let_def)
        also have "\<dots> = take i its @ [?y]
                        @ concat (map (add_item duration) (drop (Suc i) its))"
          using "1.IH"(3) [OF True refl refl refl] keep pos True
          by (simp add: take_Suc_conv_app_nth)
        finally show ?thesis using keep pos by (simp add: dr ai)
      qed
    qed
  qed
qed

lemma fragment_for_eq:
  "i \<le> length its \<Longrightarrow>
     fragment_for fs fe i its = take i its @ concat (map (fragment_item fs fe) (drop i its))"
proof (induction fs fe i its rule: fragment_for.induct)
  case (1 fs fe i its)
  show ?case
  proof (cases "i < length its")
    case False
    with "1.prems" show ?thesis by (subst fragment_for.simps) simp
  next
    case True
    let ?x = "its ! i"
    have dr: "drop i its = ?x # drop (Suc i) its"
      using True by (simp add: Cons_nth_drop_Suc)
    have len: "length (take i its) = i" using True by simp
    have fi: "fragment_item fs fe ?x =
                (if startAt ?x < fs \<and> endAt ?x > fs
                 then [?x\<lparr>endAt := fs\<rparr>, ?x\<lparr>startAt := fs\<rparr>]
                 else if startAt ?x < fe \<and> endAt ?x > fe
                 then [?x\<lparr>endAt := fe\<rparr>, ?x\<lparr>startAt := fe\<rparr>]
                 else [?x])"
      by (simp add: fragment_item_def)
    consider (atStart) "startAt ?x < fs \<and> endAt ?x > fs"
      | (atEnd) "\<not> (startAt ?x < fs \<and> endAt ?x > fs)" "startAt ?x < fe \<and> endAt ?x > fe"
      | (none) "\<not> (startAt ?x < fs \<and> endAt ?x > fs)" "\<not> (startAt ?x < fe \<and> endAt ?x > fe)"
      by blast
    then show ?thesis
    proof cases
      case atStart
      let ?its' = "take i its @ [?x\<lparr>endAt := fs\<rparr>] @ [?x\<lparr>startAt := fs\<rparr>] @ drop (Suc i) its"
      have "fragment_for fs fe i its = fragment_for fs fe (i + 2) ?its'"
        using True atStart by (subst fragment_for.simps) (auto simp add: Let_def)
      also have "\<dots> = take (i + 2) ?its' @ concat (map (fragment_item fs fe) (drop (i + 2) ?its'))"
        using "1.IH"(1) [OF True refl] atStart True by simp
      also have "take (i + 2) ?its' = take i its @ [?x\<lparr>endAt := fs\<rparr>, ?x\<lparr>startAt := fs\<rparr>]"
        using len by simp
      also have "drop (i + 2) ?its' = drop (Suc i) its"
        using len by simp
      finally show ?thesis using atStart by (simp add: dr fi)
    next
      case atEnd
      let ?its' = "take i its @ [?x\<lparr>endAt := fe\<rparr>] @ [?x\<lparr>startAt := fe\<rparr>] @ drop (Suc i) its"
      have "fragment_for fs fe i its = fragment_for fs fe (i + 2) ?its'"
        using True atEnd by (subst fragment_for.simps) (auto simp add: Let_def)
      also have "\<dots> = take (i + 2) ?its' @ concat (map (fragment_item fs fe) (drop (i + 2) ?its'))"
        using "1.IH"(2) [OF True refl] atEnd True by simp
      also have "take (i + 2) ?its' = take i its @ [?x\<lparr>endAt := fe\<rparr>, ?x\<lparr>startAt := fe\<rparr>]"
        using len by simp
      also have "drop (i + 2) ?its' = drop (Suc i) its"
        using len by simp
      finally show ?thesis using atEnd by (auto simp add: dr fi)
    next
      case none
      have "fragment_for fs fe i its = fragment_for fs fe (Suc i) its"
        using True none by (subst fragment_for.simps) (auto simp add: Let_def)
      also have "\<dots> = take (Suc i) its @ concat (map (fragment_item fs fe) (drop (Suc i) its))"
        using "1.IH"(3) [OF True refl] none True by simp
      finally show ?thesis using none True by (auto simp add: dr fi take_Suc_conv_app_nth)
    qed
  qed
qed

lemma forceDuration_loop_eq:
  "i \<le> length its \<Longrightarrow> forceDuration_loop duration i its = (lastIndex, its') \<Longrightarrow>
     (if lastIndex \<noteq> - 1 then take (nat lastIndex) its' else its')
       = take i its @ map (clipEnd duration) (takeWhile (startsBefore duration) (drop i its))"
proof (induction duration i its arbitrary: lastIndex its' rule: forceDuration_loop.induct)
  case (1 duration i its)
  show ?case
  proof (cases "i < length its")
    case False
    with "1.prems" show ?thesis by (subst (asm) forceDuration_loop.simps) auto
  next
    case True
    let ?x = "its ! i"
    have dr: "drop i its = ?x # drop (Suc i) its"
      using True by (simp add: Cons_nth_drop_Suc)
    consider (past) "jge (startAt ?x) duration"
      | (clip) "\<not> jge (startAt ?x) duration" "jgt (endAt ?x) duration"
      | (keep) "\<not> jge (startAt ?x) duration" "\<not> jgt (endAt ?x) duration"
      by blast
    then show ?thesis
    proof cases
      case past
      have "forceDuration_loop duration i its = (int i, its)"
        using True past by (subst forceDuration_loop.simps) (auto simp add: Let_def)
      moreover have "takeWhile (startsBefore duration) (drop i its) = []"
        using past by (simp add: dr startsBefore_def)
      ultimately show ?thesis using "1.prems" by auto
    next
      case clip
      have "forceDuration_loop duration i its
              = forceDuration_loop duration (Suc i) (its[i := ?x\<lparr>endAt := duration\<rparr>])"
        using True clip by (subst forceDuration_loop.simps) (auto simp add: Let_def)
      with "1.prems" have
        "forceDuration_loop duration (Suc i) (its[i := ?x\<lparr>endAt := duration\<rparr>]) = (lastIndex, its')"
        by simp
      from "1.IH"(1) [OF True refl _ _ _ this] clip True
      show ?thesis by (simp add: dr take_Suc_conv_app_nth startsBefore_def clipEnd_def)
    next
      case keep
      have "forceDuration_loop duration i its = forceDuration_loop duration (Suc i) its"
        using True keep by (subst forceDuration_loop.simps) (auto simp add: Let_def)
      with "1.prems" have "forceDuration_loop duration (Suc i) its = (lastIndex, its')"
        by simp
      from "1.IH"(2) [OF True refl _ _ _ this] keep True
      show ?thesis by (simp add: dr take_Suc_conv_app_nth startsBefore_def clipEnd_def)
    qed
  qed
qed

lemma getDuration_last: "getDuration its = (if its = [] then ofInt 0 else endAt (last its))"
  by (simp add: getDuration_def last_conv_nth)

lemma add_eq: "add its duration = concat (map (add_item duration) its)"
  by (simp add: add_def add_loop_eq)

lemma fragment_for_0: "fragment_for fs fe 0 its = concat (map (fragment_item fs fe) its)"
  by (simp add: fragment_for_eq)

lemma truncate_items_endAt: "item \<in> set (truncate_items duration its) \<Longrightarrow> endAt item \<le> duration"
  by (induction its) (auto split: if_splits)

lemma truncate_items_from:
  "item \<in> set (truncate_items duration its) \<Longrightarrow>
     \<exists>x \<in> set its. startAt item = startAt x
        \<and> (endAt item = endAt x \<or> (endAt item = duration \<and> startAt x < duration))"
proof (induction its)
  case Nil
  then show ?case by simp
next
  case (Cons a its)
  show ?case
  proof (cases "startAt a \<ge> duration")
    case True
    with Cons.prems show ?thesis by simp
  next
    case False
    with Cons.prems
    have "item = (if endAt a > duration then a\<lparr>endAt := duration\<rparr> else a)
            \<or> item \<in> set (truncate_items duration its)"
      by simp
    then show ?thesis
    proof
      assume "item = (if endAt a > duration then a\<lparr>endAt := duration\<rparr> else a)"
      with False show ?thesis by (cases "endAt a > duration") simp_all
    next
      assume "item \<in> set (truncate_items duration its)"
      from Cons.IH [OF this] show ?thesis by auto
    qed
  qed
qed

lemma truncate_items_nonNegative:
  assumes "nonNegative its"
  shows "nonNegative (truncate_items duration its)"
  unfolding nonNegative_def
proof
  fix item assume "item \<in> set (truncate_items duration its)"
  from truncate_items_from [OF this] obtain x where
    x: "x \<in> set its" "startAt item = startAt x"
       "endAt item = endAt x \<or> (endAt item = duration \<and> startAt x < duration)"
    by blast
  from assms x(1) have "0 \<le> startAt x" "0 \<le> endAt x" by (auto simp: nonNegative_def)
  with x show "0 \<le> startAt item \<and> 0 \<le> endAt item" by auto
qed

lemma forceDuration_eq:
  "forceDuration its duration addDummyItem =
     (if jeq (getDuration its) duration then its
      else (let its1 = (if jgt (getDuration its) duration
                        then map (clipEnd duration) (takeWhile (startsBefore duration) its)
                        else its)
            in if addDummyItem \<and> jlt (getDuration its1) duration
               then its1 @ [dummyItem duration] else its1))"
proof -
  obtain lastIndex its' where l: "forceDuration_loop duration 0 its = (lastIndex, its')"
    by (cases "forceDuration_loop duration 0 its")
  from forceDuration_loop_eq [OF _ l]
  have "(if lastIndex \<noteq> - 1 then take (nat lastIndex) its' else its')
          = map (clipEnd duration) (takeWhile (startsBefore duration) its)"
    by simp
  then show ?thesis
    by (simp add: forceDuration_def l Let_def)
qed

lemma jeq_eq: "jeq x y \<Longrightarrow> x = y"
  by (cases x; cases y) simp_all

lemma not_NaN_equal: "x \<noteq> NaN \<Longrightarrow> y \<noteq> NaN \<Longrightarrow> \<not> jgt x y \<Longrightarrow> \<not> jlt x y \<Longrightarrow> x = y"
  by (cases x; cases y) (auto simp: jlt_def)

lemma not_NaN_compare: "x \<noteq> NaN \<Longrightarrow> y \<noteq> NaN \<Longrightarrow> jeq x y \<or> jgt x y \<or> jlt x y"
  by (cases x; cases y) (auto simp: jlt_def)

lemma clipEnd_endAt:
  assumes "endAt item \<noteq> NaN" "duration \<noteq> NaN"
  shows "endAt (clipEnd duration item) \<noteq> NaN \<and> \<not> jgt (endAt (clipEnd duration item)) duration"
proof (cases "jgt (endAt item) duration")
  case True
  with assms(2) show ?thesis by (cases duration) (simp_all add: clipEnd_def)
next
  case False
  with assms(1) show ?thesis by (simp add: clipEnd_def)
qed

lemma getDuration_append_dummy: "getDuration (xs @ [dummyItem duration]) = duration"
  by (simp add: getDuration_last dummyItem_def)

lemma getDuration_kept:
  assumes "\<forall>item \<in> set its. endAt item \<noteq> NaN" "0 \<le> t"
    and "\<not> jlt (getDuration (map (clipEnd (ofInt t)) (takeWhile (startsBefore (ofInt t)) its))) (ofInt t)"
  shows "getDuration (map (clipEnd (ofInt t)) (takeWhile (startsBefore (ofInt t)) its)) = ofInt t"
proof -
  let ?kept = "map (clipEnd (ofInt t)) (takeWhile (startsBefore (ofInt t)) its)"
  show ?thesis
  proof (cases "?kept = []")
    case True
    with assms(2,3) show ?thesis by (simp add: getDuration_last jlt_def ofInt_def)
  next
    case False
    then have "last ?kept \<in> set ?kept" by (rule last_in_set)
    then obtain x where x: "x \<in> set its" "last ?kept = clipEnd (ofInt t) x"
      by (auto dest: set_takeWhileD)
    from assms(1) x(1) have "endAt x \<noteq> NaN" by blast
    from clipEnd_endAt [OF this, of "ofInt t"] x(2)
    have "endAt (last ?kept) \<noteq> NaN" "\<not> jgt (endAt (last ?kept)) (ofInt t)"
      by (simp_all add: ofInt_def)
    moreover from assms(3) False have "\<not> jlt (endAt (last ?kept)) (ofInt t)"
      by (simp add: getDuration_last)
    ultimately have "endAt (last ?kept) = ofInt t"
      by (intro not_NaN_equal) (simp_all add: ofInt_def)
    with False show ?thesis by (simp add: getDuration_last)
  qed
qed

text \<open>
  Claim C10, amended. \<open>forceDuration\<close> with \<open>addDummyItem\<close> set does nothing when the
  duration is the target already. When the duration is above the target, it keeps the
  items before the first one that starts at or after the target, and clips to the target
  the ends of those that are past it; otherwise it keeps every item. Then it appends a
  dummy item ending at the target when the duration of what it kept is below the target.
  For every array of items in which no \<open>endAt\<close> is \<open>NaN\<close> and every integer target that
  is not negative, the duration afterwards is the target.
\<close>

theorem forceDuration_target:
  "forceDuration its (ofInt t) True =
     (if jeq (getDuration its) (ofInt t) then its
      else (let kept = (if jgt (getDuration its) (ofInt t)
                        then map (clipEnd (ofInt t)) (takeWhile (startsBefore (ofInt t)) its)
                        else its)
            in if jlt (getDuration kept) (ofInt t) then kept @ [dummyItem (ofInt t)] else kept))
   \<and> ((\<forall>item \<in> set its. endAt item \<noteq> NaN) \<and> 0 \<le> t
        \<longrightarrow> getDuration (forceDuration its (ofInt t) True) = ofInt t)"
proof (intro conjI impI)
  show "forceDuration its (ofInt t) True =
     (if jeq (getDuration its) (ofInt t) then its
      else (let kept = (if jgt (getDuration its) (ofInt t)
                        then map (clipEnd (ofInt t)) (takeWhile (startsBefore (ofInt t)) its)
                        else its)
            in if jlt (getDuration kept) (ofInt t) then kept @ [dummyItem (ofInt t)] else kept))"
    by (simp add: forceDuration_eq)
next
  assume a: "(\<forall>item \<in> set its. endAt item \<noteq> NaN) \<and> 0 \<le> t"
  then have ends: "\<forall>item \<in> set its. endAt item \<noteq> NaN" and t: "0 \<le> t" by simp_all
  have cur: "getDuration its \<noteq> NaN"
    using ends by (simp add: getDuration_last ofInt_def)
  have tn: "ofInt t \<noteq> NaN" by (simp add: ofInt_def)
  let ?kept = "map (clipEnd (ofInt t)) (takeWhile (startsBefore (ofInt t)) its)"
  consider (same) "jeq (getDuration its) (ofInt t)"
    | (above) "\<not> jeq (getDuration its) (ofInt t)" "jgt (getDuration its) (ofInt t)"
    | (below) "\<not> jeq (getDuration its) (ofInt t)" "\<not> jgt (getDuration its) (ofInt t)"
        "jlt (getDuration its) (ofInt t)"
    using not_NaN_compare [OF cur tn] by blast
  then show "getDuration (forceDuration its (ofInt t) True) = ofInt t"
  proof cases
    case same
    then show ?thesis by (simp add: forceDuration_eq jeq_eq)
  next
    case above
    show ?thesis
    proof (cases "jlt (getDuration ?kept) (ofInt t)")
      case True
      with above show ?thesis
        by (simp add: forceDuration_eq Let_def getDuration_append_dummy)
    next
      case False
      with above getDuration_kept [OF ends t False] show ?thesis
        by (simp add: forceDuration_eq Let_def)
    qed
  next
    case below
    then show ?thesis
      by (simp add: forceDuration_eq Let_def getDuration_append_dummy)
  qed
qed

theorem forceDuration_target_witness:
  "endAt (numberItem (textItem 1000 5000 (str ''Hello''))) \<noteq> NaN
   \<and> endAt (numberItem (textItem 6000 7000 (str ''World''))) \<noteq> NaN
   \<and> (0::int) \<le> 5500
   \<and> forceDuration [numberItem (textItem 1000 5000 (str ''Hello'')),
                    numberItem (textItem 6000 7000 (str ''World''))] (ofInt 5500) True
       = [numberItem (textItem 1000 5000 (str ''Hello'')), dummyItem (ofInt 5500)]
   \<and> getDuration (forceDuration [numberItem (textItem 1000 5000 (str ''Hello'')),
                    numberItem (textItem 6000 7000 (str ''World''))] (ofInt 5500) True)
       = ofInt 5500"
  using forceDuration_target
          [of "[numberItem (textItem 1000 5000 (str ''Hello'')),
                numberItem (textItem 6000 7000 (str ''World''))]" 5500]
  by (simp add: forceDuration_eq numberItem_def textItem_def getDuration_def ofInt_def
        jlt_def jge_def clipEnd_def startsBefore_def dummyItem_def)

subsection \<open>fragment\<close>

lemma fragment_item_nonNegative:
  assumes "0 \<le> startAt x" "0 \<le> endAt x" "y \<in> set (fragment_item fs fe x)"
  shows "0 \<le> startAt y \<and> 0 \<le> endAt y"
  using assms by (auto simp: fragment_item_def split: if_splits)

lemma fragment_for_nonNegative:
  assumes "nonNegative its"
  shows "nonNegative (fragment_for fs fe 0 its)"
  unfolding nonNegative_def
proof
  fix y assume "y \<in> set (fragment_for fs fe 0 its)"
  then obtain x where x: "x \<in> set its" "y \<in> set (fragment_item fs fe x)"
    by (auto simp: fragment_for_0)
  from assms x(1) have "0 \<le> startAt x" "0 \<le> endAt x" by (auto simp: nonNegative_def)
  then show "0 \<le> startAt y \<and> 0 \<le> endAt y"
    using x(2) by (rule fragment_item_nonNegative)
qed

lemma fragment_while_nonNegative:
  assumes "fragment_while d L fs fe its = Some r"
  shows "nonNegative its \<longrightarrow> nonNegative r"
proof (rule fragment_while.raw_induct
         [where P = "\<lambda>d L fs fe its r. nonNegative its \<longrightarrow> nonNegative r", OF _ assms])
  fix f :: "int \<Rightarrow> int \<Rightarrow> int \<Rightarrow> int \<Rightarrow> int Item list \<Rightarrow> int Item list option"
  fix d L fs fe :: int and its r :: "int Item list"
  assume IH: "\<And>d L fs fe its r. f d L fs fe its = Some r \<Longrightarrow> nonNegative its \<longrightarrow> nonNegative r"
  assume eq: "(if fs < L then f d L (fs + d) (fe + d) (fragment_for fs fe 0 its) else Some its) = Some r"
  show "nonNegative its \<longrightarrow> nonNegative r"
  proof (cases "fs < L")
    case True
    with eq have "f d L (fs + d) (fe + d) (fragment_for fs fe 0 its) = Some r" by simp
    from IH [OF this] show ?thesis by (simp add: fragment_for_nonNegative)
  next
    case False
    with eq show ?thesis by simp
  qed
qed

lemma fragment_while_returns:
  "0 < d \<Longrightarrow> \<exists>r. fragment_while d L fs fe its = Some r"
proof (induction "nat (L - fs)" arbitrary: fs fe its rule: less_induct)
  case less
  show ?case
  proof (cases "fs < L")
    case True
    with less.prems have "nat (L - (fs + d)) < nat (L - fs)" by simp
    from less.hyps [OF this less.prems] True show ?thesis
      by (subst fragment_while.simps) simp
  next
    case False
    then show ?thesis by (subst fragment_while.simps) simp
  qed
qed








lemma set_order: "set (order its) = set its"
  by (simp add: order_def)




subsection \<open>No negative timestamp\<close>

lemma add_item_nonNegative:
  assumes "startAt x \<le> endAt x" "y \<in> set (add_item duration x)"
  shows "0 \<le> startAt y \<and> 0 \<le> endAt y"
  using assms by (auto simp: add_item_def Let_def split: if_splits)

lemma add_nonNegative:
  assumes "\<forall>item \<in> set its. startAt item \<le> endAt item"
  shows "nonNegative (add its duration)"
  unfolding nonNegative_def
proof
  fix y assume "y \<in> set (add its duration)"
  then obtain x where x: "x \<in> set its" "y \<in> set (add_item duration x)"
    by (auto simp: add_eq)
  from assms x(1) have "startAt x \<le> endAt x" by blast
  then show "0 \<le> startAt y \<and> 0 \<le> endAt y" using x(2) by (rule add_item_nonNegative)
qed

lemma jgt_ofInt: "jgt (ofInt a) (ofInt b) = (a > b)"
  by (simp add: ofInt_def)

lemma jeq_ofInt: "jeq (ofInt a) (ofInt b) = (a = b)"
  by (simp add: ofInt_def)

lemma jlt_ofInt: "jlt (ofInt a) (ofInt b) = (a < b)"
  by (simp add: jlt_def jgt_ofInt)

lemma jge_ofInt: "jge (ofInt a) (ofInt b) = (a \<ge> b)"
  by (auto simp add: jge_def jgt_ofInt jeq_ofInt)

lemma getDuration_numberItem:
  "getDuration (map numberItem its) = ofInt (if its = [] then 0 else endAt (last its))"
  by (simp add: getDuration_last last_map numberItem_def)

lemma kept_numberItem:
  "map (clipEnd (ofInt d)) (takeWhile (startsBefore (ofInt d)) (map numberItem its))
     = map numberItem (truncate_items d its)"
proof (induction its)
  case Nil
  show ?case by simp
next
  case (Cons a its)
  have sb: "startsBefore (ofInt d) (numberItem a) = (\<not> startAt a \<ge> d)"
    by (simp add: startsBefore_def numberItem_def jge_ofInt)
  have ce: "clipEnd (ofInt d) (numberItem a)
              = numberItem (if endAt a > d then a\<lparr>endAt := d\<rparr> else a)"
    by (simp add: clipEnd_def numberItem_def jgt_ofInt)
  show ?case
  proof (cases "startAt a \<ge> d")
    case True
    then show ?thesis by (simp add: sb)
  next
    case False
    then show ?thesis using Cons.IH by (simp add: sb ce)
  qed
qed

lemma dummyItem_numberItem: "dummyItem (ofInt d) = numberItem (textItem (d - 1) d (str ''...''))"
  by (simp add: dummyItem_def numberItem_def textItem_def jsub_def ofInt_def)

lemma last_nonNegative: "nonNegative its \<Longrightarrow> 0 \<le> (if its = [] then 0 else endAt (last its))"
  by (simp add: nonNegative_def)

lemma nonNegative_append_dummy:
  "nonNegative its \<Longrightarrow> 0 < d \<Longrightarrow> nonNegative (its @ [textItem (d - 1) d t])"
  by (simp add: nonNegative_def textItem_def)

lemma forceDuration_nonNegative:
  assumes "nonNegative its"
  shows "\<exists>r. forceDuration (map numberItem its) (ofInt d) addDummyItem = map numberItem r
             \<and> nonNegative r"
proof -
  let ?last = "\<lambda>xs :: int Item list. if xs = [] then 0 else endAt (last xs)"
  let ?its1 = "if ?last its > d then truncate_items d its else its"
  let ?r = "if ?last its = d then its
            else if addDummyItem \<and> ?last ?its1 < d
            then ?its1 @ [textItem (d - 1) d (str ''...'')] else ?its1"
  have n1: "nonNegative ?its1"
    using assms by (simp add: truncate_items_nonNegative)
  have "nonNegative (?its1 @ [textItem (d - 1) d (str ''...'')])" if "?last ?its1 < d"
    using n1 that last_nonNegative [OF n1] by (intro nonNegative_append_dummy) simp_all
  with n1 assms have "nonNegative ?r" by simp
  moreover have "forceDuration (map numberItem its) (ofInt d) addDummyItem = map numberItem ?r"
  proof -
    have k: "getDuration (map (clipEnd (ofInt d)) (takeWhile (startsBefore (ofInt d))
                 (map numberItem its))) = ofInt (?last (truncate_items d its))"
      unfolding kept_numberItem by (rule getDuration_numberItem)
    show ?thesis
      unfolding forceDuration_eq getDuration_numberItem jeq_ofInt jgt_ofInt Let_def
      by (simp add: k kept_numberItem getDuration_numberItem jlt_ofInt dummyItem_numberItem)
  qed
  ultimately show ?thesis by blast
qed

lemma fragment_nonNegative:
  assumes "nonNegative its" "fragment its windowSize = Some r"
  shows "nonNegative r"
proof (cases "its = []")
  case True
  with assms show ?thesis by (simp add: fragment_def)
next
  case False
  with assms(2) obtain r' where r': 
    "fragment_while windowSize (endAt (its ! (length its - 1))) 0 windowSize its = Some r'"
    "r = order r'"
    by (auto simp: fragment_def)
  from fragment_while_nonNegative [OF r'(1)] assms(1) have "nonNegative r'" by simp
  then show ?thesis by (simp add: r'(2) nonNegative_def set_order)
qed

lemma fragment_returns: "0 < windowSize \<Longrightarrow> \<exists>r. fragment its windowSize = Some r"
  using fragment_while_returns [of windowSize "endAt (its ! (length its - 1))" 0 windowSize its]
  by (auto simp: fragment_def)

text \<open>
  Claim C2, amended. For every array of distinct items whose \<open>startAt\<close> and \<open>endAt\<close>
  are integers that are not negative: after \<open>forceDuration\<close> (any integer target,
  either flag) the timestamps are integers again and none is negative; after
  \<open>fragment\<close> none is negative either, for every window size with which it returns, and
  it returns for every window size above zero; after \<open>add\<close> (any duration) none is,
  provided no item ends before it starts, a start that would go below zero being set to
  zero. \<open>applyLinearCorrection\<close> is not among them: it does not clamp.
\<close>

theorem timeline_nonNegative:
  assumes "nonNegative its"
  shows "(\<exists>r. forceDuration (map numberItem its) (ofInt target) addDummyItem = map numberItem r
              \<and> nonNegative r)
         \<and> (\<forall>r. fragment its windowSize = Some r \<longrightarrow> nonNegative r)
         \<and> (0 < windowSize \<longrightarrow> (\<exists>r. fragment its windowSize = Some r))
         \<and> ((\<forall>item \<in> set its. startAt item \<le> endAt item) \<longrightarrow> nonNegative (add its delta))"
  using assms forceDuration_nonNegative fragment_nonNegative fragment_returns add_nonNegative
  by blast

theorem timeline_nonNegative_witness:
  "nonNegative [textItem 1000 5000 (str ''Hello World'')]
   \<and> startAt (textItem 1000 5000 (str ''Hello World''))
        \<le> endAt (textItem 1000 5000 (str ''Hello World''))
   \<and> (0::int) < 2000
   \<and> fragment [textItem 1000 5000 (str ''Hello World'')] 2000
       = Some [textItem 1000 2000 (str ''Hello World''), textItem 2000 4000 (str ''Hello World''),
               textItem 4000 5000 (str ''Hello World'')]
   \<and> nonNegative [textItem 1000 2000 (str ''Hello World''), textItem 2000 4000 (str ''Hello World''),
               textItem 4000 5000 (str ''Hello World'')]
   \<and> forceDuration (map numberItem [textItem 1000 5000 (str ''Hello World'')]) (ofInt 2000) True
       = map numberItem [textItem 1000 2000 (str ''Hello World'')]
   \<and> nonNegative [textItem 1000 2000 (str ''Hello World'')]
   \<and> (\<exists>r. forceDuration (map numberItem [textItem 1000 5000 (str ''Hello World'')])
              (ofInt 2000) True = map numberItem r \<and> nonNegative r)
   \<and> nonNegative (add [textItem 1000 5000 (str ''Hello World'')] (- 2000))"
proof -
  have f: "fragment [textItem 1000 5000 (str ''Hello World'')] 2000
       = Some [textItem 1000 2000 (str ''Hello World''), textItem 2000 4000 (str ''Hello World''),
               textItem 4000 5000 (str ''Hello World'')]"
    by (simp add: fragment_def fragment_while.simps fragment_for_0 fragment_item_def order_def
          textItem_def)
  have n: "nonNegative [textItem 1000 5000 (str ''Hello World'')]"
    by (simp add: nonNegative_def textItem_def)
  have o: "\<forall>item \<in> set [textItem 1000 5000 (str ''Hello World'')]. startAt item \<le> endAt item"
    by (simp add: textItem_def)
  have fd: "forceDuration (map numberItem [textItem 1000 5000 (str ''Hello World'')])
               (ofInt 2000) True = map numberItem [textItem 1000 2000 (str ''Hello World'')]"
    by (simp add: forceDuration_eq getDuration_def numberItem_def textItem_def jgt_ofInt
          jeq_ofInt jlt_ofInt jge_ofInt clipEnd_def startsBefore_def)
  have n2: "nonNegative [textItem 1000 2000 (str ''Hello World'')]"
    by (simp add: nonNegative_def textItem_def)
  from timeline_nonNegative [OF n, of 2000 True 2000 "- 2000"] f n o fd n2
  show ?thesis by simp
qed

text \<open>
  The claim as stated fails for \<open>applyLinearCorrection\<close>, which writes what the linear
  map gives, and for \<open>add\<close> on an item that ends before it starts.
\<close>

theorem nonNegative_counterexample:
  "nonNegative [textItem 0 500 (str ''Hello World'')]
   \<and> applyLinearCorrection [textItem 0 500 (str ''Hello World'')] 0 (- 1000) 1000 0
       = Inr [\<lparr>endAt = Num (- 500), index = None,
               lines = [\<lparr>items = [\<lparr>inlineStyle = None, text = str ''Hello World''\<rparr>]\<rparr>],
               startAt = Num (- 1000)\<rparr>]
   \<and> nonNegative [textItem 3000 1000 (str ''Hello World'')]
   \<and> add [textItem 3000 1000 (str ''Hello World'')] (- 2000)
       = [textItem 1000 (- 1000) (str ''Hello World'')]
   \<and> \<not> nonNegative (add [textItem 3000 1000 (str ''Hello World'')] (- 2000))"
  by (simp add: applyLinearCorrection_def Let_def textItem_def ofInt_def signedInfinity_def
        jsub_def nonNegative_def add_eq add_item_def)

subsection \<open>add, fragment and unfragment on the examples of the specification\<close>

text \<open>
  Claim C6, amended. \<open>add\<close> with \<open>-2000\<close> on the single item \<open>[1000, 3000)\<close> yields
  that item with \<open>startAt = 0\<close> and \<open>endAt = 1000\<close> (its end stays above zero, so it is
  not dropped); on the single item \<open>[1000, 5000)\<close> it yields that item with
  \<open>startAt = 0\<close> and \<open>endAt = 3000\<close>.
\<close>

theorem add_examples:
  "add [it\<lparr>startAt := 1000, endAt := 3000\<rparr>] (- 2000) = [it\<lparr>startAt := 0, endAt := 1000\<rparr>]
   \<and> add [it\<lparr>startAt := 1000, endAt := 5000\<rparr>] (- 2000) = [it\<lparr>startAt := 0, endAt := 3000\<rparr>]"
  by (simp add: add_eq add_item_def Let_def)

text \<open>The item \<open>[1000, 3000)\<close> is not dropped.\<close>

theorem add_drop_counterexample:
  "add [textItem 1000 3000 (str ''Hello World'')] (- 2000) \<noteq> []"
  by (simp add: add_eq add_item_def Let_def textItem_def)

lemma fragment_example:
  "fragment [it\<lparr>startAt := 0, endAt := 6000\<rparr>] 2000
     = Some [it\<lparr>startAt := 0, endAt := 2000\<rparr>, it\<lparr>startAt := 2000, endAt := 4000\<rparr>,
             it\<lparr>startAt := 4000, endAt := 6000\<rparr>]"
  by (simp add: fragment_def fragment_while.simps fragment_for_0 fragment_item_def order_def)

lemma unfragment_example:
  "unfragment [it\<lparr>startAt := 0, endAt := 2000\<rparr>, it\<lparr>startAt := 2000, endAt := 4000\<rparr>,
             it\<lparr>startAt := 4000, endAt := 6000\<rparr>] = [it\<lparr>startAt := 0, endAt := 6000\<rparr>]"
  by (simp add: unfragment_def order_def unfragment_outer.simps unfragment_inner.simps
        itemToString_def Let_def)

text \<open>
  Claim C5. For a single item with \<open>startAt = 0\<close> and \<open>endAt = 6000\<close>, whatever its
  lines, \<open>fragment\<close> with window \<open>2000\<close> followed by \<open>unfragment\<close> yields exactly that
  item again: one item, from \<open>0\<close> to \<open>6000\<close>, with the lines and so the rendered text
  it had.
\<close>

theorem unfragment_fragment_example:
  "map_option unfragment (fragment [it\<lparr>startAt := 0, endAt := 6000\<rparr>] 2000)
     = Some [it\<lparr>startAt := 0, endAt := 6000\<rparr>]
   \<and> itemToString (it\<lparr>startAt := 0, endAt := 6000\<rparr>) = itemToString it"
  by (simp add: fragment_example unfragment_example itemToString_def)

subsection \<open>applyLinearCorrection\<close>

lemma not_isFinite_jmul: "\<not> isFinite x \<Longrightarrow> \<not> isFinite (jmul x y)"
  by (cases x; cases y) (simp_all add: signedInfinity_def)

lemma not_isFinite_jadd: "\<not> isFinite x \<Longrightarrow> \<not> isFinite (jadd x y)"
  by (cases x; cases y) simp_all

lemma not_isFinite_jfloor: "\<not> isFinite x \<Longrightarrow> \<not> isFinite (jfloor x)"
  by (cases x) simp_all

lemma not_isFinite_div_zero: "\<not> isFinite (jdiv (ofInt n) (ofInt 0))"
  by (simp add: ofInt_def signedInfinity_def)

text \<open>
  Claim C7, amended. For every array of items and all arguments with
  \<open>actual1 = actual2\<close>, \<open>applyLinearCorrection\<close> raises no error: it returns, and every
  \<open>startAt\<close> and \<open>endAt\<close> it has written is \<open>NaN\<close> or an infinity.
\<close>

theorem applyLinearCorrection_degenerate:
  "\<exists>r. applyLinearCorrection its actual desired1 actual desired2 = Inr r
       \<and> length r = length its
       \<and> (\<forall>item \<in> set r. \<not> isFinite (startAt item) \<and> \<not> isFinite (endAt item))"
proof -
  let ?a = "jdiv (ofInt (desired2 - desired1)) (ofInt (actual - actual))"
  have "\<not> isFinite ?a" using not_isFinite_div_zero by simp
  then have "\<not> isFinite (jfloor (jadd (jmul ?a t) b))" for t b
    by (intro not_isFinite_jfloor not_isFinite_jadd not_isFinite_jmul)
  then show ?thesis
    by (auto simp add: applyLinearCorrection_def Let_def)
qed

theorem applyLinearCorrection_degenerate_witness:
  "applyLinearCorrection [textItem 1000 3000 (str ''Hello World'')] 1000 2000 1000 7000
     = Inr [\<lparr>endAt = NaN, index = None,
             lines = [\<lparr>items = [\<lparr>inlineStyle = None, text = str ''Hello World''\<rparr>]\<rparr>],
             startAt = NaN\<rparr>]
   \<and> (\<exists>r. applyLinearCorrection [textItem 1000 3000 (str ''Hello World'')] 1000 2000 1000 7000 = Inr r
        \<and> length r = 1
        \<and> (\<forall>item \<in> set r. \<not> isFinite (startAt item) \<and> \<not> isFinite (endAt item)))"
  using applyLinearCorrection_degenerate
          [of "[textItem 1000 3000 (str ''Hello World'')]" 1000 2000 7000]
  by (simp add: applyLinearCorrection_def Let_def textItem_def ofInt_def signedInfinity_def jsub_def)

text \<open>With \<open>actual1 = actual2 = 1000\<close> the call returns, with \<open>NaN\<close> in the item.\<close>

theorem applyLinearCorrection_no_error_counterexample:
  "applyLinearCorrection [textItem 1000 3000 (str ''Hello World'')] 1000 2000 1000 7000
     = Inr [\<lparr>endAt = NaN, index = None,
             lines = [\<lparr>items = [\<lparr>inlineStyle = None, text = str ''Hello World''\<rparr>]\<rparr>],
             startAt = NaN\<rparr>]"
  by (simp add: applyLinearCorrection_def Let_def textItem_def ofInt_def signedInfinity_def jsub_def)

section \<open>SubRip codec and entry points\<close>

lemma parseSRTDuration_error: "parseSRTDuration s = Inl e \<Longrightarrow> e = Error"
  by (auto simp: parseSRTDuration_def split: sum.splits)

lemma boundaryLine_error: "boundaryLine l st = Inl e \<Longrightarrow> e = Error"
  by (auto simp: boundaryLine_def Let_def split: prod.splits sum.splits if_splits)

lemma readFromSRT_loop_error: "readFromSRT_loop ls st = Inl e \<Longrightarrow> e = Error"
proof (induction ls arbitrary: st)
  case Nil
  then show ?case by simp
next
  case (Cons l ls)
  show ?case
  proof (cases "stringIncludes (trim l) SRT_TIME_BOUNDARIES_SEPARATOR")
    case True
    show ?thesis
    proof (cases "boundaryLine (trim l) st")
      case (Inl e')
      with Cons.prems True boundaryLine_error [OF Inl] show ?thesis by (simp add: Let_def)
    next
      case (Inr st')
      with Cons.prems True have "readFromSRT_loop ls st' = Inl e" by (simp add: Let_def)
      then show ?thesis by (rule Cons.IH)
    qed
  next
    case False
    with Cons.prems have "readFromSRT_loop ls (textLine (trim l) st) = Inl e"
      by (simp add: Let_def)
    then show ?thesis by (rule Cons.IH)
  qed
qed

lemma readFromSRT_error: "readFromSRT content = Inl e \<Longrightarrow> e = Error"
  using readFromSRT_loop_error
  by (fastforce simp: readFromSRT_def split: sum.splits prod.splits if_splits)

lemma writeToSRT_returns: "its \<noteq> [] \<Longrightarrow> \<exists>t. writeToSRT its = Inr t"
  by (simp add: writeToSRT_def)

text \<open>
  The two switches as they are written: \<open>srt\<close> is the one name with a case, so
  \<open>writeToString\<close> fails exactly when the array is empty (\<open>NoSubtitlesToWriteError\<close>) or
  the lower-cased name is not \<open>srt\<close> (\<open>InvalidExtensionError\<close>), and \<open>readFromString\<close>
  fails with \<open>InvalidExtensionError\<close> exactly when the lower-cased name is not \<open>srt\<close>.
\<close>

lemma entry_points:
  "(writeToString its format = Inl NoSubtitlesToWriteError \<longleftrightarrow> its = [])
   \<and> (writeToString its format = Inl InvalidExtensionError
        \<longleftrightarrow> its \<noteq> [] \<and> toLowerCase format \<noteq> str ''srt'')
   \<and> ((\<exists>e. writeToString its format = Inl e) \<longleftrightarrow> its = [] \<or> toLowerCase format \<noteq> str ''srt'')
   \<and> (readFromString content format = Inl InvalidExtensionError
        \<longleftrightarrow> toLowerCase format \<noteq> str ''srt'')
   \<and> toLowerCase (str ''srt'') = str ''srt''
   \<and> toLowerCase (str ''webvtt'') \<noteq> str ''srt''"
proof -
  have lower: "toLowerCase (str ''srt'') = str ''srt''" "toLowerCase (str ''webvtt'') \<noteq> str ''srt''"
    by (simp_all add: toLowerCase_def lowerUnit_def str_def)
  have w: "writeToString its format =
             (if its = [] then Inl NoSubtitlesToWriteError
              else if toLowerCase format = str ''srt'' then writeToSRT its
              else Inl InvalidExtensionError)"
    by (simp add: writeToString_def)
  have srt: "writeToSRT its \<noteq> Inl e" if "its \<noteq> []" for e
    using that by (simp add: writeToSRT_def)
  have r: "readFromSRT content \<noteq> Inl InvalidExtensionError"
    using readFromSRT_error [of content InvalidExtensionError] by auto
  show ?thesis
    using lower srt r by (auto simp add: w readFromString_def)
qed

lemma detectFormat_vtt: "detectFormat (str ''movie.vtt'') = Some (str ''webvtt'')"
  by (simp add: detectFormat_def getFileExtension_def lastIndexOf_def toLowerCase_def
        lowerUnit_def str_def)

lemma toLowerCase_webvtt: "toLowerCase (str ''webvtt'') \<noteq> str ''srt''"
  by (simp add: toLowerCase_def lowerUnit_def str_def)

text \<open>
  Claim C3. For every array of items and every format name, \<open>writeToString\<close> fails exactly
  when the array is empty or the name is not recognised, and \<open>readFromString\<close> fails
  with an extension error exactly on names that are not recognised; \<open>srt\<close> and \<open>webvtt\<close>
  are both recognised and dispatch to their codec. The code breaks this at \<open>webvtt\<close>:
  \<open>formats/webvtt.ts\<close> holds the codec (\<open>readFromWebVTT\<close>, \<open>writeToWebVTT\<close>), the README
  reads and writes with the name \<open>webvtt\<close>, and \<open>detectFormat\<close> gives \<open>webvtt\<close> for a file
  named \<open>.vtt\<close>, but in both switches the \<open>webvtt\<close> case is commented out, so that
  \<open>readFromString\<close>, \<open>writeToString\<close>, \<open>openFile\<close> and \<open>writeFile\<close> all throw
  \<open>InvalidExtensionError\<close> there. The theorem evaluates the four of them on a WebVTT text
  of one cue, on an array of one item, and on the file name \<open>movie.vtt\<close>.
\<close>

theorem entry_points_webvtt:
  "detectFormat (str ''movie.vtt'') = Some (str ''webvtt'')
   \<and> readFromString (str ''WEBVTT'' @ [10, 10] @ str ''00:01.000 --> 00:02.000'' @ [10]
         @ str ''Hello World'' @ [10]) (str ''webvtt'') = Inl InvalidExtensionError
   \<and> openFile (str ''movie.vtt'') (str ''WEBVTT'' @ [10, 10] @ str ''00:01.000 --> 00:02.000''
         @ [10] @ str ''Hello World'' @ [10]) = Inl InvalidExtensionError
   \<and> writeToString [textItem 1000 3000 (str ''Hello World'')] (str ''webvtt'')
       = Inl InvalidExtensionError
   \<and> writeFile [textItem 1000 3000 (str ''Hello World'')] (str ''movie.vtt'')
       = Inl InvalidExtensionError"
  by (simp add: detectFormat_vtt toLowerCase_webvtt openFile_def writeFile_def
        readFromString_def writeToString_def)

lemma tagAt_other: "c \<noteq> 60 \<Longrightarrow> tagAt (c # cs) = None"
  by (simp add: tagAt_def)

lemma parseSRTText_go_plain:
  "60 \<notin> set s \<Longrightarrow> parseSRTText_go currentStyle acc s = textItems currentStyle (acc @ s)"
  by (induction s arbitrary: acc) (simp_all add: tagAt_other)

lemma unescapeHTML_plain: "38 \<notin> set s \<Longrightarrow> unescapeHTML s = s"
  by (induction s) (simp_all add: entity_at_other)

lemma itemStyle_emptyStyle: "itemStyle emptyStyle = None"
  by (simp add: itemStyle_def emptyStyle_def)

lemma parseSRTText_plain:
  assumes "60 \<notin> set t" "38 \<notin> set t" "trim t \<noteq> []"
  shows "parseSRTText t emptyStyle = \<lparr>items = [\<lparr>inlineStyle = None, text = t\<rparr>]\<rparr>"
proof -
  from assms(3) have "t \<noteq> []" by (auto simp: trim_def trimStart_def trimEnd_def)
  with assms show ?thesis
    by (simp add: parseSRTText_def parseSRTText_go_plain textItems_def itemStyle_emptyStyle
          unescapeHTML_plain)
qed

lemma splitWhiteSpace_go_plain:
  "\<forall>c \<in> set s. \<not> isWhiteSpace c \<Longrightarrow> splitWhiteSpace_go cur s = [cur @ s]"
  by (induction s arbitrary: cur) simp_all

lemma not_space_ascii: "32 < c \<Longrightarrow> c < 128 \<Longrightarrow> \<not> isWhiteSpace c"
  by (auto simp: isWhiteSpace_def)

lemma trim_line1: "trim line1 = line1"
  by (rule trim_no_space) (simp_all add: line1_def str_def not_space_ascii)

lemma trim_line2: "trim line2 = line2"
  by (rule trim_no_space) (simp_all add: line2_def str_def not_space_ascii)

lemma trim_line3: "trim line3 = line3"
  by (rule trim_no_space) (simp_all add: line3_def str_def not_space_ascii)

lemma includes_line1: "\<not> stringIncludes line1 SRT_TIME_BOUNDARIES_SEPARATOR"
  by (simp add: line1_def SRT_TIME_BOUNDARIES_SEPARATOR_def str_def)

lemma includes_line2: "stringIncludes line2 SRT_TIME_BOUNDARIES_SEPARATOR"
  by (simp add: line2_def SRT_TIME_BOUNDARIES_SEPARATOR_def str_def)

lemma includes_line3: "\<not> stringIncludes line3 SRT_TIME_BOUNDARIES_SEPARATOR"
  by (simp add: line3_def SRT_TIME_BOUNDARIES_SEPARATOR_def str_def)

lemma splitLines_example:
  "splitLines (removeBOM (line1 @ [10] @ line2 @ [10] @ line3 @ [10])) = [line1, line2, line3]"
  by (simp add: splitLines_def removeBOM_def hasBOM_def line1_def line2_def line3_def str_def)

lemma parse_line1: "parseSRTText line1 emptyStyle = \<lparr>items = [\<lparr>inlineStyle = None, text = line1\<rparr>]\<rparr>"
  by (rule parseSRTText_plain) (simp_all add: trim_line1, simp_all add: line1_def str_def)

lemma parse_line3: "parseSRTText line3 emptyStyle = \<lparr>items = [\<lparr>inlineStyle = None, text = line3\<rparr>]\<rparr>"
  by (rule parseSRTText_plain) (simp_all add: trim_line3, simp_all add: line3_def str_def)

lemma split_line2:
  "split line2 SRT_TIME_BOUNDARIES_SEPARATOR = [str ''00:01:00,000 '', str '' 00:02:00,000'']"
  by (simp add: split_def line2_def SRT_TIME_BOUNDARIES_SEPARATOR_def str_def)

lemma trim_start_time: "trim (str ''00:01:00,000 '') = str ''00:01:00,000''"
  by (simp add: trim_def trimStart_def trimEnd_def str_def isWhiteSpace_def)

lemma trim_end_time: "trim (str '' 00:02:00,000'') = str ''00:02:00,000''"
  by (simp add: trim_def trimStart_def trimEnd_def str_def isWhiteSpace_def)

lemma splitWhiteSpace_end_time: "splitWhiteSpace (str ''00:02:00,000'') = [str ''00:02:00,000'']"
  unfolding splitWhiteSpace_def
  by (subst splitWhiteSpace_go_plain) (simp_all add: str_def not_space_ascii)

lemma digitString_examples:
  "digitString [48, 48]" "digitString [48, 49]" "digitString [48, 50]" "digitString [48, 48, 48]"
  by (simp_all add: digitString_def isDigit_def)

lemma parse_start_time: "parseSRTDuration (str ''00:01:00,000'') = Inr (Num 60000)"
proof -
  have "parseDuration ([48, 48] @ 58 # [48, 49] @ 58 # [48, 48] @ 44 # [48, 48, 48]) [44] 3
          = Inr (Num 60000)"
    by (subst parseDuration_fields) (simp_all add: digitString_examples digitsValue_def)
  then show ?thesis by (simp add: parseSRTDuration_def str_def)
qed

lemma parse_end_time: "parseSRTDuration (str ''00:02:00,000'') = Inr (Num 120000)"
proof -
  have "parseDuration ([48, 48] @ 58 # [48, 50] @ 58 # [48, 48] @ 44 # [48, 48, 48]) [44] 3
          = Inr (Num 120000)"
    by (subst parseDuration_fields) (simp_all add: digitString_examples digitsValue_def)
  then show ?thesis by (simp add: parseSRTDuration_def str_def)
qed

lemma parseInt_line1: "parseInt line1 = Some 1"
  using parseInt_digitString [of "[49]"]
  by (simp add: line1_def str_def digitString_def isDigit_def digitsValue_def)

lemma step1:
  "textLine line1 (freshItem, emptyStyle, [])
     = (freshItem\<lparr>lines := [\<lparr>items = [\<lparr>inlineStyle = None, text = line1\<rparr>]\<rparr>]\<rparr>, emptyStyle, [])"
  by (simp add: textLine_def parse_line1 freshItem_def)

lemma not_empty_line1: "line1 \<noteq> []" and not_empty_line3: "line3 \<noteq> []"
  by (simp_all add: line1_def line3_def str_def)

lemma step2:
  "boundaryLine line2
       (freshItem\<lparr>lines := [\<lparr>items = [\<lparr>inlineStyle = None, text = line1\<rparr>]\<rparr>]\<rparr>, emptyStyle, [])
     = Inr (\<lparr>endAt = Num 120000, index = Some 1, lines = [], startAt = Num 60000\<rparr>,
            emptyStyle, [])"
  by (simp add: boundaryLine_def Let_def freshItem_def not_empty_line1 popEmptyLines_def
        parseInt_line1 split_line2 trim_start_time trim_end_time parse_start_time
        parse_end_time splitWhiteSpace_end_time ofInt_def)

lemma step3:
  "textLine line3 (\<lparr>endAt = Num 120000, index = Some 1, lines = [], startAt = Num 60000\<rparr>,
            emptyStyle, [])
     = (\<lparr>endAt = Num 120000, index = Some 1,
          lines = [\<lparr>items = [\<lparr>inlineStyle = None, text = line3\<rparr>]\<rparr>],
          startAt = Num 60000\<rparr>, emptyStyle, [])"
  by (simp add: textLine_def parse_line3)

lemma loop_example:
  "readFromSRT_loop [line1, line2, line3] (freshItem, emptyStyle, [])
     = Inr (\<lparr>endAt = Num 120000, index = Some 1,
              lines = [\<lparr>items = [\<lparr>inlineStyle = None, text = line3\<rparr>]\<rparr>],
              startAt = Num 60000\<rparr>, emptyStyle, [])"
  by (simp add: Let_def trim_line1 trim_line2 trim_line3 includes_line1 includes_line2
        includes_line3 step1 step2 step3)

text \<open>
  Claim C8. \<open>readFromSRT\<close> on the three lines \<open>1\<close>, \<open>00:01:00,000 --> 00:02:00,000\<close>
  and \<open>Hello World\<close>, each ended by a line feed, gives exactly one item, from \<open>60000\<close>
  to \<open>120000\<close>, with exactly one line of exactly one line item, whose text is
  \<open>Hello World\<close>.
\<close>

theorem readFromSRT_example:
  "readFromSRT (str ''1'' @ [10] @ str ''00:01:00,000 --> 00:02:00,000'' @ [10]
                  @ str ''Hello World'' @ [10])
     = Inr [\<lparr>endAt = Num 120000, index = Some 1,
              lines = [\<lparr>items = [\<lparr>inlineStyle = None, text = str ''Hello World''\<rparr>]\<rparr>],
              startAt = Num 60000\<rparr>]"
proof -
  have "readFromSRT (line1 @ [10] @ line2 @ [10] @ line3 @ [10])
     = Inr [\<lparr>endAt = Num 120000, index = Some 1,
              lines = [\<lparr>items = [\<lparr>inlineStyle = None, text = line3\<rparr>]\<rparr>],
              startAt = Num 60000\<rparr>]"
    unfolding readFromSRT_def splitLines_example loop_example
    by (simp add: popEmptyLines_def isEmptyLine_def not_empty_line3)
  then show ?thesis by (simp only: line1_def line2_def line3_def)
qed

subsection \<open>A timestamp that is not a number\<close>

text \<open>
  \<open>parseDuration\<close> checks the hours, minutes and seconds for \<open>NaN\<close>, not the
  milliseconds of the form with four fields, so the reader can give an item an \<open>endAt\<close>
  that is \<open>NaN\<close>.
\<close>

lemma parseInt_x: "parseInt [120] = None"
  by (simp add: parseInt_def trimStart_def isWhiteSpace_def isDigit_def Let_def)

lemma parseDuration_x: "parseDuration (str ''1:2:3:x'') (str '','') 3 = Inr NaN"
proof -
  have s1: "split (str ''1:2:3:x'') (str '','') = [str ''1:2:3:x'']"
    by (simp add: split_def str_def)
  have t1: "trim (str ''1:2:3:x'') = str ''1:2:3:x''"
    by (rule trim_no_space) (simp_all add: str_def isWhiteSpace_def)
  have s2: "split (str ''1:2:3:x'') (str '':'') = [[49], [50], [51], [120]]"
    by (simp add: split_def str_def)
  have t: "trim [49] = [49]" "trim [50] = [50]" "trim [51] = [51]" "trim [120] = [120]"
    by (simp_all add: trim_def trimStart_def trimEnd_def isWhiteSpace_def)
  have p: "parseInt [49] = Some 1" "parseInt [50] = Some 2" "parseInt [51] = Some 3"
    using parseInt_digitString [of "[49]"] parseInt_digitString [of "[50]"]
      parseInt_digitString [of "[51]"]
    by (simp_all add: digitString_def isDigit_def digitsValue_def)
  show ?thesis
    by (simp add: parseDuration_def s1 t1 s2 t p parseInt_x Let_def numberOf_def ofInt_def)
qed

lemma parseSRTDuration_x: "parseSRTDuration (str ''1:2:3:x'') = Inr NaN"
  by (simp add: parseSRTDuration_def parseDuration_x)

lemma trim_lineNaN: "trim lineNaN = lineNaN"
  by (rule trim_no_space) (simp_all add: lineNaN_def str_def not_space_ascii)

lemma includes_lineNaN: "stringIncludes lineNaN SRT_TIME_BOUNDARIES_SEPARATOR"
  by (simp add: lineNaN_def SRT_TIME_BOUNDARIES_SEPARATOR_def str_def)

lemma splitLines_lineNaN:
  "splitLines (removeBOM (line1 @ [10] @ lineNaN @ [10] @ line3 @ [10])) = [line1, lineNaN, line3]"
  by (simp add: splitLines_def removeBOM_def hasBOM_def line1_def lineNaN_def line3_def str_def)

lemma split_lineNaN:
  "split lineNaN SRT_TIME_BOUNDARIES_SEPARATOR = [str ''00:00:01,000 '', str '' 1:2:3:x'']"
  by (simp add: split_def lineNaN_def SRT_TIME_BOUNDARIES_SEPARATOR_def str_def)

lemma trim_start_lineNaN: "trim (str ''00:00:01,000 '') = str ''00:00:01,000''"
  by (simp add: trim_def trimStart_def trimEnd_def str_def isWhiteSpace_def)

lemma trim_end_lineNaN: "trim (str '' 1:2:3:x'') = str ''1:2:3:x''"
  by (simp add: trim_def trimStart_def trimEnd_def str_def isWhiteSpace_def)

lemma splitWhiteSpace_lineNaN: "splitWhiteSpace (str ''1:2:3:x'') = [str ''1:2:3:x'']"
  unfolding splitWhiteSpace_def
  by (subst splitWhiteSpace_go_plain) (simp_all add: str_def not_space_ascii)

lemma parse_start_lineNaN: "parseSRTDuration (str ''00:00:01,000'') = Inr (Num 1000)"
proof -
  have "parseDuration ([48, 48] @ 58 # [48, 48] @ 58 # [48, 49] @ 44 # [48, 48, 48]) [44] 3
          = Inr (Num 1000)"
    by (subst parseDuration_fields) (simp_all add: digitString_examples digitsValue_def)
  then show ?thesis by (simp add: parseSRTDuration_def str_def)
qed

lemma boundary_lineNaN:
  "boundaryLine lineNaN
       (freshItem\<lparr>lines := [\<lparr>items = [\<lparr>inlineStyle = None, text = line1\<rparr>]\<rparr>]\<rparr>, emptyStyle, [])
     = Inr (\<lparr>endAt = NaN, index = Some 1, lines = [], startAt = Num 1000\<rparr>, emptyStyle, [])"
  by (simp add: boundaryLine_def Let_def freshItem_def not_empty_line1 popEmptyLines_def
        parseInt_line1 split_lineNaN trim_start_lineNaN trim_end_lineNaN parse_start_lineNaN
        parseSRTDuration_x splitWhiteSpace_lineNaN ofInt_def)

lemma text_after_lineNaN:
  "textLine line3 (\<lparr>endAt = NaN, index = Some 1, lines = [], startAt = Num 1000\<rparr>,
            emptyStyle, [])
     = (\<lparr>endAt = NaN, index = Some 1,
          lines = [\<lparr>items = [\<lparr>inlineStyle = None, text = line3\<rparr>]\<rparr>],
          startAt = Num 1000\<rparr>, emptyStyle, [])"
  by (simp add: textLine_def parse_line3)

lemma loop_lineNaN:
  "readFromSRT_loop [line1, lineNaN, line3] (freshItem, emptyStyle, [])
     = Inr (\<lparr>endAt = NaN, index = Some 1,
              lines = [\<lparr>items = [\<lparr>inlineStyle = None, text = line3\<rparr>]\<rparr>],
              startAt = Num 1000\<rparr>, emptyStyle, [])"
  by (simp add: Let_def trim_line1 trim_lineNaN trim_line3 includes_line1 includes_lineNaN
        includes_line3 step1 boundary_lineNaN text_after_lineNaN)

lemma readFromSRT_NaN:
  "readFromSRT (str ''1'' @ [10] @ str ''00:00:01,000 --> 1:2:3:x'' @ [10]
                  @ str ''Hello World'' @ [10])
     = Inr [\<lparr>endAt = NaN, index = Some 1,
              lines = [\<lparr>items = [\<lparr>inlineStyle = None, text = str ''Hello World''\<rparr>]\<rparr>],
              startAt = Num 1000\<rparr>]"
proof -
  have "readFromSRT (line1 @ [10] @ lineNaN @ [10] @ line3 @ [10])
     = Inr [\<lparr>endAt = NaN, index = Some 1,
              lines = [\<lparr>items = [\<lparr>inlineStyle = None, text = line3\<rparr>]\<rparr>],
              startAt = Num 1000\<rparr>]"
    unfolding readFromSRT_def splitLines_lineNaN loop_lineNaN
    by (simp add: popEmptyLines_def isEmptyLine_def not_empty_line3)
  then show ?thesis by (simp only: line1_def lineNaN_def line3_def)
qed

text \<open>
  On the item the reader gives for such a boundary line, the duration after
  \<open>forceDuration\<close> is not the target: every comparison of the duration with the target is
  false, nothing is clipped or appended, and the duration stays \<open>NaN\<close>.
\<close>

theorem forceDuration_NaN_counterexample:
  "readFromSRT (str ''1'' @ [10] @ str ''00:00:01,000 --> 1:2:3:x'' @ [10]
                  @ str ''Hello World'' @ [10])
     = Inr [\<lparr>endAt = NaN, index = Some 1,
              lines = [\<lparr>items = [\<lparr>inlineStyle = None, text = str ''Hello World''\<rparr>]\<rparr>],
              startAt = Num 1000\<rparr>]
   \<and> forceDuration [\<lparr>endAt = NaN, index = Some 1,
              lines = [\<lparr>items = [\<lparr>inlineStyle = None, text = str ''Hello World''\<rparr>]\<rparr>],
              startAt = Num 1000\<rparr>] (ofInt 2000) True
     = [\<lparr>endAt = NaN, index = Some 1,
              lines = [\<lparr>items = [\<lparr>inlineStyle = None, text = str ''Hello World''\<rparr>]\<rparr>],
              startAt = Num 1000\<rparr>]
   \<and> getDuration (forceDuration [\<lparr>endAt = NaN, index = Some 1,
              lines = [\<lparr>items = [\<lparr>inlineStyle = None, text = str ''Hello World''\<rparr>]\<rparr>],
              startAt = Num 1000\<rparr>] (ofInt 2000) True) = NaN
   \<and> getDuration (forceDuration [\<lparr>endAt = NaN, index = Some 1,
              lines = [\<lparr>items = [\<lparr>inlineStyle = None, text = str ''Hello World''\<rparr>]\<rparr>],
              startAt = Num 1000\<rparr>] (ofInt 2000) True) \<noteq> ofInt 2000"
proof (intro conjI)
  show "readFromSRT (str ''1'' @ [10] @ str ''00:00:01,000 --> 1:2:3:x'' @ [10]
                  @ str ''Hello World'' @ [10])
     = Inr [\<lparr>endAt = NaN, index = Some 1,
              lines = [\<lparr>items = [\<lparr>inlineStyle = None, text = str ''Hello World''\<rparr>]\<rparr>],
              startAt = Num 1000\<rparr>]"
    by (rule readFromSRT_NaN)
qed (simp_all add: forceDuration_eq getDuration_def jlt_def ofInt_def)

end
